theory Spec2Isabelle
  imports Main "HOL-Library.Sublist"
begin

section \<open>Go strings\<close>

text \<open>
  A Go \<^verbatim>\<open>string\<close> (and a \<^verbatim>\<open>[]byte\<close>) is a sequence of bytes; it is modelled as
  \<^typ>\<open>string\<close>, a list of 8-bit characters. The functions of the packages
  \<^verbatim>\<open>strings\<close>, \<^verbatim>\<open>bytes\<close>, \<^verbatim>\<open>strconv\<close> and \<^verbatim>\<open>unicode\<close> that
  \<^verbatim>\<open>procfs_linux.go\<close> calls are written out below on bytes.
\<close>

text \<open>\<^verbatim>\<open>strings.Index(s, sep)\<close>: the offset of the first occurrence of \<open>sep\<close> in \<open>s\<close>;
  \<open>None\<close> is Go's \<open>-1\<close>.\<close>

fun Index :: "string \<Rightarrow> string \<Rightarrow> nat option" where
  "Index [] sep = (if sep = [] then Some 0 else None)"
| "Index (c # s) sep =
     (if prefix sep (c # s) then Some 0 else map_option Suc (Index s sep))"

text \<open>
  The loop of \<^verbatim>\<open>strings.genSplit\<close> for a non-empty separator: \<open>n\<close> is the number of
  cuts still allowed (Go's \<^verbatim>\<open>n\<close> after \<^verbatim>\<open>n--\<close>, minus \<^verbatim>\<open>i\<close>).
\<close>

fun genSplit :: "string \<Rightarrow> string \<Rightarrow> nat \<Rightarrow> string list" where
  "genSplit s sep 0 = [s]"
| "genSplit s sep (Suc n) =
     (case Index s sep of
        None \<Rightarrow> [s]
      | Some m \<Rightarrow> take m s # genSplit (drop (m + length sep) s) sep n)"

text \<open>
  \<^verbatim>\<open>strings.SplitN(s, sep, n)\<close> and \<^verbatim>\<open>bytes.SplitN\<close> for a non-empty \<open>sep\<close> (every
  call site passes a one-byte separator): \<open>n = 0\<close> gives nil, \<open>n < 0\<close> cuts at every
  occurrence (Go takes \<^verbatim>\<open>Count(s, sep) + 1\<close> pieces; no more than \<open>length s\<close> cuts
  can succeed, since each consumes at least one byte), and \<open>n > 0\<close> gives at most
  \<open>n\<close> pieces, the last one the unsplit rest. Go also clamps \<open>n\<close> to \<open>length s + 1\<close>.
\<close>

definition SplitN :: "string \<Rightarrow> string \<Rightarrow> int \<Rightarrow> string list" where
  "SplitN s sep n =
     (if n = 0 then []
      else if n < 0 then genSplit s sep (length s)
      else genSplit s sep (min (nat n) (length s + 1) - 1))"

text \<open>\<^verbatim>\<open>strings.Split(s, sep)\<close> is \<^verbatim>\<open>genSplit(s, sep, 0, -1)\<close>.\<close>

definition Split :: "string \<Rightarrow> string \<Rightarrow> string list" where
  "Split s sep = SplitN s sep (- 1)"

text \<open>\<^verbatim>\<open>strings.Join(elems, sep)\<close>.\<close>

fun Join :: "string list \<Rightarrow> string \<Rightarrow> string" where
  "Join [] sep = []"
| "Join [x] sep = x"
| "Join (x # y # ys) sep = x @ sep @ Join (y # ys) sep"

text \<open>
  The runes for which \<^verbatim>\<open>unicode.IsSpace\<close> holds, each as its UTF-8 encoding:
  U+0009 to U+000D, U+0020, U+0085, U+00A0, U+1680, U+2000 to U+200A, U+2028, U+2029,
  U+202F, U+205F and U+3000. Go decodes a string rune by rune; a lead byte is never
  consumed as the continuation of an earlier rune, so a space rune stands at an offset
  exactly when one of these byte sequences starts there, and it ends the string exactly
  when one of them is a suffix.
\<close>

definition space_runes :: "string list" where
  "space_runes =
     [[CHR 0x09], [CHR 0x0A], [CHR 0x0B], [CHR 0x0C], [CHR 0x0D], [CHR 0x20],
      [CHR 0xC2, CHR 0x85], [CHR 0xC2, CHR 0xA0],
      [CHR 0xE1, CHR 0x9A, CHR 0x80],
      [CHR 0xE2, CHR 0x80, CHR 0x80], [CHR 0xE2, CHR 0x80, CHR 0x81],
      [CHR 0xE2, CHR 0x80, CHR 0x82], [CHR 0xE2, CHR 0x80, CHR 0x83],
      [CHR 0xE2, CHR 0x80, CHR 0x84], [CHR 0xE2, CHR 0x80, CHR 0x85],
      [CHR 0xE2, CHR 0x80, CHR 0x86], [CHR 0xE2, CHR 0x80, CHR 0x87],
      [CHR 0xE2, CHR 0x80, CHR 0x88], [CHR 0xE2, CHR 0x80, CHR 0x89],
      [CHR 0xE2, CHR 0x80, CHR 0x8A],
      [CHR 0xE2, CHR 0x80, CHR 0xA8], [CHR 0xE2, CHR 0x80, CHR 0xA9],
      [CHR 0xE2, CHR 0x80, CHR 0xAF],
      [CHR 0xE2, CHR 0x81, CHR 0x9F],
      [CHR 0xE3, CHR 0x80, CHR 0x80]]"

text \<open>The width in bytes of the rune of \<open>rs\<close> that starts \<open>s\<close>; 0 when none does.\<close>

definition rune_width :: "string list \<Rightarrow> string \<Rightarrow> nat" where
  "rune_width rs s = (case filter (\<lambda>r. prefix r s) rs of [] \<Rightarrow> 0 | r # _ \<Rightarrow> length r)"

text \<open>\<^verbatim>\<open>strings.TrimLeftFunc(s, unicode.IsSpace)\<close>; \<open>n\<close> bounds the number of runes cut.\<close>

fun trimLeft :: "nat \<Rightarrow> string \<Rightarrow> string" where
  "trimLeft 0 s = s"
| "trimLeft (Suc n) s =
     (if rune_width space_runes s = 0 then s
      else trimLeft n (drop (rune_width space_runes s) s))"

text \<open>\<^verbatim>\<open>strings.TrimRightFunc(s, unicode.IsSpace)\<close>, on the reversed string.\<close>

fun trimRight :: "nat \<Rightarrow> string \<Rightarrow> string" where
  "trimRight 0 s = s"
| "trimRight (Suc n) s =
     (if rune_width (map rev space_runes) (rev s) = 0 then s
      else trimRight n (take (length s - rune_width (map rev space_runes) (rev s)) s))"

text \<open>\<^verbatim>\<open>strings.TrimSpace(s)\<close>: all leading and trailing white space removed.\<close>

definition TrimSpace :: "string \<Rightarrow> string" where
  "TrimSpace s = (let t = trimLeft (length s) s in trimRight (length t) t)"

text \<open>
  \<^verbatim>\<open>strconv.Itoa\<close>: the decimal digits of a number, most significant first, with a
  minus sign for a negative one.
\<close>

function formatUint :: "nat \<Rightarrow> string" where
  "formatUint n =
     (if n < 10 then [char_of (48 + n)]
      else formatUint (n div 10) @ [char_of (48 + n mod 10)])"
  by pat_completeness auto
termination
  by (relation "measure (\<lambda>n. n)") auto

definition Itoa :: "int \<Rightarrow> string" where
  "Itoa i = (if i < 0 then CHR ''-'' # formatUint (nat (- i)) else formatUint (nat i))"

text \<open>
  \<^verbatim>\<open>strconv.Atoi\<close> where \<^verbatim>\<open>int\<close> has 64 bits (linux/amd64): an optional sign, then
  one or more decimal digits and nothing else, and a value that fits the type;
  \<open>None\<close> is a \<^verbatim>\<open>*NumError\<close>.
\<close>

definition isDigit :: "char \<Rightarrow> bool" where
  "isDigit c = (48 \<le> (of_char c :: nat) \<and> (of_char c :: nat) \<le> 57)"

definition digits_value :: "string \<Rightarrow> nat" where
  "digits_value s = foldl (\<lambda>n c. n * 10 + (of_char c - 48)) 0 s"

definition Atoi :: "string \<Rightarrow> int option" where
  "Atoi s =
     (let neg = (s \<noteq> [] \<and> hd s = CHR ''-'');
          body = (if s \<noteq> [] \<and> (hd s = CHR ''-'' \<or> hd s = CHR ''+'') then tl s else s)
      in if body = [] \<or> \<not> list_all isDigit body then None
         else let n = int (digits_value body);
                  v = (if neg then - n else n)
              in if v < - (2 ^ 63) \<or> 2 ^ 63 \<le> v then None else Some v)"

text \<open>
  \<^verbatim>\<open>strings.FieldsFunc(s, f)\<close> with the \<open>f\<close> of \<^verbatim>\<open>getPids\<close>, which holds for white
  space and for the colon: the maximal runs of runes between separators. \<open>cur\<close> is the
  field being read (Go's \<^verbatim>\<open>start >= 0\<close> is \<open>cur \<noteq> []\<close>).
\<close>

definition field_seps :: "string list" where
  "field_seps = space_runes @ ['':'']"

function fields :: "string \<Rightarrow> string \<Rightarrow> string list" where
  "fields cur [] = (if cur = [] then [] else [cur])"
| "fields cur (c # s) =
     (if rune_width field_seps (c # s) = 0 then fields (cur @ [c]) s
      else (if cur = [] then [] else [cur]) @
           fields [] (drop (rune_width field_seps (c # s)) (c # s)))"
  by pat_completeness auto
termination
  by (relation "measure (\<lambda>(cur, s). length s)") auto

definition FieldsFunc :: "string \<Rightarrow> string list" where
  "FieldsFunc s = fields [] s"

text \<open>
  \<^verbatim>\<open>strconv.Quote\<close> on ASCII text: the text between double quotes, with a backslash
  before a double quote and before a backslash, and the escapes of Go for the control
  characters. The result for a byte from 0x80 on depends on UTF-8 decoding and on the
  Unicode tables, which are not modelled, and the escape of 0x7F differs between
  releases of the library: for these it is \<open>None\<close>.
\<close>

definition hex_digit :: "nat \<Rightarrow> char" where
  "hex_digit n = (''0123456789abcdef'') ! (n mod 16)"

definition quote_byte :: "char \<Rightarrow> string option" where
  "quote_byte c =
     (let n = (of_char c :: nat)
      in if 128 \<le> n then None
         else if c = CHR 0x22 then Some [CHR 0x5C, CHR 0x22]
         else if c = CHR 0x5C then Some [CHR 0x5C, CHR 0x5C]
         else if 32 \<le> n \<and> n < 127 then Some [c]
         else if n = 127 then None
         else if n = 7 then Some [CHR 0x5C, CHR ''a'']
         else if n = 8 then Some [CHR 0x5C, CHR ''b'']
         else if n = 12 then Some [CHR 0x5C, CHR ''f'']
         else if n = 10 then Some [CHR 0x5C, CHR ''n'']
         else if n = 13 then Some [CHR 0x5C, CHR ''r'']
         else if n = 9 then Some [CHR 0x5C, CHR ''t'']
         else if n = 11 then Some [CHR 0x5C, CHR ''v'']
         else Some [CHR 0x5C, CHR ''x'', hex_digit (n div 16), hex_digit n])"

fun quote_bytes :: "string \<Rightarrow> string option" where
  "quote_bytes [] = Some []"
| "quote_bytes (c # s) =
     (case quote_byte c of
        None \<Rightarrow> None
      | Some q \<Rightarrow> map_option ((@) q) (quote_bytes s))"

definition Quote :: "string \<Rightarrow> string option" where
  "Quote s = map_option (\<lambda>q. [CHR 0x22] @ q @ [CHR 0x22]) (quote_bytes s)"

text \<open>
  \<^verbatim>\<open>fmt.Sprintf\<close> with string operands, for the formats of this file: text is copied,
  \<^verbatim>\<open>%s\<close> writes the next operand, \<^verbatim>\<open>%q\<close> writes it quoted and \<^verbatim>\<open>%%\<close> writes a
  percent sign. Every other use of \<^verbatim>\<open>%\<close> (flags, widths, other verbs, a verb without
  an operand, an operand without a verb) is outside the model: the result is \<open>None\<close>.
\<close>

fun Sprintf :: "string \<Rightarrow> string list \<Rightarrow> string option" where
  "Sprintf [] args = (if args = [] then Some [] else None)"
| "Sprintf [c] args = (if c = CHR ''%'' \<or> args \<noteq> [] then None else Some [c])"
| "Sprintf (c # v # format) args =
     (if c \<noteq> CHR ''%'' then map_option ((#) c) (Sprintf (v # format) args)
      else if v = CHR ''%'' then map_option ((#) CHR ''%'') (Sprintf format args)
      else case args of
             [] \<Rightarrow> None
           | a # args' \<Rightarrow>
               if v = CHR ''s'' then map_option ((@) a) (Sprintf format args')
               else if v = CHR ''q'' then
                 (case Quote a of
                    None \<Rightarrow> None
                  | Some q \<Rightarrow> map_option ((@) q) (Sprintf format args'))
               else None)"

section \<open>Errors\<close>

text \<open>
  A Go \<^verbatim>\<open>error\<close> is modelled by how it was made: the text of an error built by
  \<^verbatim>\<open>fmt.Errorf\<close>, the sentinels \<^verbatim>\<open>io.EOF\<close> and \<^verbatim>\<open>os.ErrNotExist\<close>, a failure of the
  operating system (\<^verbatim>\<open>*os.PathError\<close> with its operation, path and errno), and a
  \<^verbatim>\<open>*syntax.Error\<close> of the regular-expression parser with its code and expression.
\<close>

datatype error =
    ErrorString string
  | EOF
  | ErrNotExist
  | PathError string string nat
  | SyntaxError string string

section \<open>The container name of a process\<close>

text \<open>The loop of \<^verbatim>\<open>containerNameFromProcCgroup\<close> over the lines.\<close>

fun devices_line :: "string list \<Rightarrow> error + string" where
  "devices_line [] = Inl (ErrorString ''could not find devices cgroup location'')"
| "devices_line (line # lines) =
     (let entries = SplitN line '':'' 3
      in if length entries = 3 \<and> entries ! 1 = ''devices''
         then Inr (TrimSpace (entries ! 2))
         else devices_line lines)"

definition containerNameFromProcCgroup :: "string \<Rightarrow> error + string" where
  "containerNameFromProcCgroup content = devices_line (Split content [CHR 0x0A])"

section \<open>Regular expressions\<close>

text \<open>
  The package \<^verbatim>\<open>regexp\<close> is modelled on the fragment of its syntax that the patterns
  of this file are built from: literal ASCII characters, the anchors \<^verbatim>\<open>^\<close> and \<^verbatim>\<open>$\<close>
  (begin and end of the text, since \<^verbatim>\<open>regexp.Compile\<close> parses with the flags
  \<^verbatim>\<open>syntax.Perl\<close>), alternation and capturing groups. A \<open>regex\<close> is the parse
  tree (\<^verbatim>\<open>syntax.Regexp\<close>), with concatenation and alternation nested to the right.
\<close>

datatype regex =
    EmptyMatch
  | Literal char
  | BeginText
  | EndText
  | Capture regex
  | Concat regex regex
  | Alternate regex regex

fun mk_concat :: "regex list \<Rightarrow> regex" where
  "mk_concat [] = EmptyMatch"
| "mk_concat [r] = r"
| "mk_concat (r # rs) = Concat r (mk_concat rs)"

fun mk_alternate :: "regex list \<Rightarrow> regex" where
  "mk_alternate [] = EmptyMatch"
| "mk_alternate [r] = r"
| "mk_alternate (r # rs) = Alternate r (mk_alternate rs)"

text \<open>
  The parser keeps a stack, as \<^verbatim>\<open>syntax.Parse\<close> does. A frame holds what has been read
  since the last open parenthesis: the finished alternatives and the items of the
  concatenation being read, both newest first.
\<close>

type_synonym frame = "regex list \<times> regex list"

definition close_frame :: "frame \<Rightarrow> regex" where
  "close_frame f = mk_alternate (rev (mk_concat (rev (snd f)) # fst f))"

text \<open>
  The characters with a meaning of their own in the syntax (those that
  \<^verbatim>\<open>regexp.QuoteMeta\<close> escapes); a \<open>plain\<close> text has none of them and is ASCII.
\<close>

definition metachars :: "char set" where
  "metachars = set [CHR 0x5C, CHR ''.'', CHR ''+'', CHR ''*'', CHR ''?'', CHR ''('', CHR '')'',
                    CHR ''|'', CHR ''['', CHR '']'', CHR ''{'', CHR ''}'', CHR ''^'', CHR ''$'']"

definition plain_char :: "char \<Rightarrow> bool" where
  "plain_char c = (c \<notin> metachars \<and> (of_char c :: nat) < 128)"

definition plain :: "string \<Rightarrow> bool" where
  "plain s = list_all plain_char s"

text \<open>
  \<open>parse whole f fs s\<close> reads the rest \<open>s\<close> of the pattern \<open>whole\<close>, with \<open>f\<close> the
  innermost frame and \<open>fs\<close> the frames of the enclosing groups. The result is \<open>None\<close>
  at a character outside the fragment (repetition, classes, escapes, the dot, bytes from
  0x80 on); the resource limits of later releases of the library are not modelled.
\<close>

fun parse :: "string \<Rightarrow> frame \<Rightarrow> frame list \<Rightarrow> string \<Rightarrow> (error + regex) option" where
  "parse whole f fs [] =
     (if fs = [] then Some (Inr (close_frame f))
      else Some (Inl (SyntaxError ''missing closing )'' whole)))"
| "parse whole f fs (c # s) =
     (if c = CHR ''('' then parse whole ([], []) (f # fs) s
      else if c = CHR '')'' then
        (case fs of
           [] \<Rightarrow> Some (Inl (SyntaxError ''unexpected )'' whole))
         | g # gs \<Rightarrow> parse whole (fst g, Capture (close_frame f) # snd g) gs s)
      else if c = CHR ''|'' then parse whole (mk_concat (rev (snd f)) # fst f, []) fs s
      else if c = CHR ''^'' then parse whole (fst f, BeginText # snd f) fs s
      else if c = CHR ''$'' then parse whole (fst f, EndText # snd f) fs s
      else if plain_char c then parse whole (fst f, Literal c # snd f) fs s
      else None)"

text \<open>\<^verbatim>\<open>regexp.Compile(expr)\<close>.\<close>

definition Compile :: "string \<Rightarrow> (error + regex) option" where
  "Compile expr = parse expr ([], []) [] expr"

text \<open>
  \<open>rmatch r b s e\<close>: the expression \<open>r\<close> matches the piece \<open>s\<close> of a text, where \<open>b\<close>
  says that the piece starts at the beginning of the text and \<open>e\<close> that it ends at its
  end.
\<close>

fun rmatch :: "regex \<Rightarrow> bool \<Rightarrow> string \<Rightarrow> bool \<Rightarrow> bool" where
  "rmatch EmptyMatch b s e = (s = [])"
| "rmatch (Literal c) b s e = (s = [c])"
| "rmatch BeginText b s e = (s = [] \<and> b)"
| "rmatch EndText b s e = (s = [] \<and> e)"
| "rmatch (Capture r) b s e = rmatch r b s e"
| "rmatch (Concat r1 r2) b s e =
     list_ex (\<lambda>i. rmatch r1 b (take i s) (e \<and> i = length s) \<and>
                   rmatch r2 (b \<and> i = 0) (drop i s) e)
       [0..<Suc (length s)]"
| "rmatch (Alternate r1 r2) b s e = (rmatch r1 b s e \<or> rmatch r2 b s e)"

text \<open>\<^verbatim>\<open>re.MatchString(s)\<close>: some piece of \<open>s\<close>, from offset \<open>i\<close> to offset \<open>j\<close>, matches.\<close>

definition MatchString :: "regex \<Rightarrow> string \<Rightarrow> bool" where
  "MatchString re s =
     list_ex (\<lambda>i. list_ex (\<lambda>j. rmatch re (i = 0) (take (j - i) (drop i s)) (j = length s))
                    [i..<Suc (length s)])
       [0..<Suc (length s)]"

section \<open>The operating system\<close>

text \<open>
  What one call sees of the system: whether \<^verbatim>\<open>os.Open("/proc")\<close> fails, the results of
  the successive calls of \<^verbatim>\<open>dirFD.Readdir(10)\<close> until the directory is exhausted (a
  call returns entries and an error or nil; every later call returns no entry and
  \<^verbatim>\<open>io.EOF\<close>), the result of \<^verbatim>\<open>ioutil.ReadFile\<close> for each path, and for
  \<^verbatim>\<open>syscall.Kill\<close> either nil (\<open>None\<close>) or the text \<^verbatim>\<open>err.Error()\<close> of its error.
  The calls made are recorded as events, in order.
\<close>

record dirent =
  Name :: string
  IsDir :: bool

record procfs =
  open_proc :: "error option"
  readdirs :: "(dirent list \<times> error option) list"
  files :: "string \<Rightarrow> error + string"
  kill :: "int \<Rightarrow> int \<Rightarrow> string option"

datatype event =
    EvCompile string
  | EvOpen string
  | EvReaddir
  | EvClose
  | EvReadFile string
  | EvKill int int

text \<open>A slice of pids: \<open>None\<close> is the nil slice.\<close>

definition len :: "int list option \<Rightarrow> nat" where
  "len pids = (case pids of None \<Rightarrow> 0 | Some xs \<Rightarrow> length xs)"

definition elems :: "int list option \<Rightarrow> int list" where
  "elems pids = (case pids of None \<Rightarrow> [] | Some xs \<Rightarrow> xs)"

text \<open>\<^verbatim>\<open>fmt.Errorf\<close>.\<close>

definition Errorf :: "string \<Rightarrow> string list \<Rightarrow> error option" where
  "Errorf format args = map_option ErrorString (Sprintf format args)"

text \<open>
  \<^verbatim>\<open>os.IsNotExist\<close>: the error, unwrapped from a \<^verbatim>\<open>*PathError\<close>, is \<^verbatim>\<open>ENOENT\<close>
  (errno 2) or \<^verbatim>\<open>os.ErrNotExist\<close>.
\<close>

definition ENOENT :: nat where
  "ENOENT = 2"

fun IsNotExist :: "error \<Rightarrow> bool" where
  "IsNotExist ErrNotExist = True"
| "IsNotExist (PathError oper path errno) = (errno = ENOENT)"
| "IsNotExist err = False"

section \<open>GetFullContainerName\<close>

text \<open>
  \<^verbatim>\<open>path.Join\<close> and \<^verbatim>\<open>filepath.Join\<close> put a slash between the elements and clean the
  result; the paths built here (\<^verbatim>\<open>/proc\<close>, a number, a file name) are clean already.
\<close>

definition GetFullContainerName :: "procfs \<Rightarrow> int \<Rightarrow> (error + string) \<times> event list" where
  "GetFullContainerName w pid =
     (let filePath = Join [''/proc'', Itoa pid, ''cgroup''] ''/''
      in case files w filePath of
           Inl err \<Rightarrow>
             (if IsNotExist err then (Inl ErrNotExist, [EvReadFile filePath])
              else (Inl err, [EvReadFile filePath]))
         | Inr content \<Rightarrow> (containerNameFromProcCgroup content, [EvReadFile filePath]))"

section \<open>The scan of the process table\<close>

text \<open>
  The body of the inner loop of \<^verbatim>\<open>getPids\<close> for one directory entry: the pid that the
  entry appends to \<^verbatim>\<open>pids\<close>, if it reaches the \<^verbatim>\<open>append\<close>, and the calls it makes.
  (The message logged with \<^verbatim>\<open>klog.V(4)\<close> for an unreadable file is not modelled.)
\<close>

definition scan_entry :: "procfs \<Rightarrow> regex \<Rightarrow> dirent \<Rightarrow> int option \<times> event list" where
  "scan_entry w re entry =
     (if \<not> IsDir entry then (None, [])
      else case Atoi (Name entry) of
             None \<Rightarrow> (None, [])
           | Some pid \<Rightarrow>
               (let p = Join [''/proc'', Name entry, ''cmdline''] ''/''
                in case files w p of
                     Inl err \<Rightarrow> (None, [EvReadFile p])
                   | Inr cmdline \<Rightarrow>
                       (let parts = SplitN cmdline [CHR 0x00] 2
                        in if length parts = 0 then (None, [EvReadFile p])
                           else let exe = FieldsFunc (parts ! 0)
                                in if length exe = 0 then (None, [EvReadFile p])
                                   else if MatchString re (exe ! 0)
                                        then (Some pid, [EvReadFile p])
                                        else (None, [EvReadFile p]))))"

text \<open>
  The same body up to the test of the pattern: the pid of the entry and \<^verbatim>\<open>exe[0]\<close>,
  the first token of its command line; \<open>None\<close> where the body leaves with
  \<^verbatim>\<open>continue\<close> before the test.
\<close>

definition first_token :: "procfs \<Rightarrow> dirent \<Rightarrow> (int \<times> string) option" where
  "first_token w entry =
     (if \<not> IsDir entry then None
      else case Atoi (Name entry) of
             None \<Rightarrow> None
           | Some pid \<Rightarrow>
               (case files w (Join [''/proc'', Name entry, ''cmdline''] ''/'') of
                  Inl err \<Rightarrow> None
                | Inr cmdline \<Rightarrow>
                    (let parts = SplitN cmdline [CHR 0x00] 2
                     in if length parts = 0 then None
                        else let exe = FieldsFunc (parts ! 0)
                             in if length exe = 0 then None else Some (pid, exe ! 0))))"

text \<open>The inner loop over one batch; the state is \<^verbatim>\<open>pids\<close> and the events so far.\<close>

fun scan_batch ::
  "procfs \<Rightarrow> regex \<Rightarrow> dirent list \<Rightarrow> int list \<times> event list \<Rightarrow> int list \<times> event list" where
  "scan_batch w re [] st = st"
| "scan_batch w re (entry # ls) st =
     (case scan_entry w re entry of
        (None, evs) \<Rightarrow> scan_batch w re ls (fst st, snd st @ evs)
      | (Some pid, evs) \<Rightarrow> scan_batch w re ls (fst st @ [pid], snd st @ evs))"

text \<open>
  The outer loop over the results of \<^verbatim>\<open>Readdir\<close>. Every way out runs the deferred
  \<^verbatim>\<open>dirFD.Close()\<close>.
\<close>

fun scan ::
  "procfs \<Rightarrow> regex \<Rightarrow> (dirent list \<times> error option) list \<Rightarrow> int list \<times> event list \<Rightarrow>
     int list option \<times> event list" where
  "scan w re [] st = (Some (fst st), snd st @ [EvReaddir, EvClose])"
| "scan w re ((ls, err) # rest) st =
     (if err = Some EOF then (Some (fst st), snd st @ [EvReaddir, EvClose])
      else if err \<noteq> None then (None, snd st @ [EvReaddir, EvClose])
      else scan w re rest (scan_batch w re ls (fst st, snd st @ [EvReaddir])))"

definition getPids :: "procfs \<Rightarrow> regex \<Rightarrow> int list option \<times> event list" where
  "getPids w re =
     (case open_proc w of
        Some err \<Rightarrow> (None, [EvOpen ''/proc''])
      | None \<Rightarrow> scan w re (readdirs w) ([], [EvOpen ''/proc'']))"

section \<open>PidOf and PKill\<close>

text \<open>
  Both return \<open>None\<close> where the model of the library says nothing (a pattern outside
  the fragment of \<open>parse\<close>, a format outside that of \<open>Sprintf\<close>); otherwise the
  returned values and the events of the call.
\<close>

definition PidOf :: "procfs \<Rightarrow> string \<Rightarrow> ((int list option \<times> error option) \<times> event list) option" where
  "PidOf w name =
     (if length name = 0
      then map_option (\<lambda>e. ((Some [], Some e), [])) (Errorf ''name should not be empty'' [])
      else case Compile (''(^|/)'' @ name @ ''$'') of
             None \<Rightarrow> None
           | Some (Inl err) \<Rightarrow> Some ((Some [], Some err), [EvCompile (''(^|/)'' @ name @ ''$'')])
           | Some (Inr re) \<Rightarrow>
               Some ((fst (getPids w re), None),
                     EvCompile (''(^|/)'' @ name @ ''$'') # snd (getPids w re)))"

text \<open>
  The loop of \<^verbatim>\<open>PKill\<close> over the pids; the state is \<^verbatim>\<open>errmsgs\<close> and the events so
  far. A message already in \<^verbatim>\<open>errmsgs\<close> is skipped.
\<close>

fun kill_all ::
  "procfs \<Rightarrow> int \<Rightarrow> int list \<Rightarrow> string list \<times> event list \<Rightarrow> string list \<times> event list" where
  "kill_all w sig [] st = st"
| "kill_all w sig (pid # pids) st =
     (case kill w pid sig of
        None \<Rightarrow> kill_all w sig pids (fst st, snd st @ [EvKill pid sig])
      | Some msg \<Rightarrow>
          kill_all w sig pids
            (if msg \<in> set (fst st) then fst st else fst st @ [msg], snd st @ [EvKill pid sig]))"

definition PKill :: "procfs \<Rightarrow> string \<Rightarrow> int \<Rightarrow> (error option \<times> event list) option" where
  "PKill w name sig =
     (if length name = 0
      then map_option (\<lambda>e. (Some e, [])) (Errorf ''name should not be empty'' [])
      else case Compile name of
             None \<Rightarrow> None
           | Some (Inl err) \<Rightarrow> Some (Some err, [EvCompile name])
           | Some (Inr re) \<Rightarrow>
               (let pids = fst (getPids w re);
                    tr = EvCompile name # snd (getPids w re)
                in if len pids = 0
                   then map_option (\<lambda>e. (Some e, tr))
                          (Errorf ''unable to fetch pids for process name : %q'' [name])
                   else let st = kill_all w sig (elems pids) ([], tr);
                            errmsgs = fst st;
                            numErrors = length errmsgs
                        in if numErrors > 0
                           then (if numErrors = 1
                                 then map_option (\<lambda>e. (Some e, snd st)) (Errorf (errmsgs ! 0) [])
                                 else map_option (\<lambda>e. (Some e, snd st))
                                        (Errorf ''[ %s ]'' [Join errmsgs '','']))
                           else Some (None, snd st)))"

section \<open>Example systems\<close>

text \<open>
  A process table with an \<^verbatim>\<open>nginx\<close> started by its full path (pid 1), a process whose
  command line cannot be read (pid 2), an \<^verbatim>\<open>nginx-helper\<close> (pid 3), and two entries
  that are not processes. Signal 15 fails with a different error for pid 1 and pid 3,
  signal 9 fails with the same error for every pid, any other signal is delivered.
\<close>

definition example_files :: "string \<Rightarrow> error + string" where
  "example_files p =
     (if p = ''/proc/1/cmdline'' then Inr (''/usr/sbin/nginx'' @ [CHR 0x00] @ ''-g'' @ [CHR 0x00])
      else if p = ''/proc/2/cmdline'' then Inl (PathError ''open'' p 13)
      else if p = ''/proc/3/cmdline'' then Inr (''nginx-helper'' @ [CHR 0x00])
      else if p = ''/proc/1/cgroup'' then Inr (''4:devices:/docker/nginx'' @ [CHR 0x0A])
      else if p = ''/proc/2/cgroup'' then Inl (PathError ''open'' p 13)
      else Inl (PathError ''open'' p 2))"

definition example_kill :: "int \<Rightarrow> int \<Rightarrow> string option" where
  "example_kill pid sig =
     (if sig = 15 then
        (if pid = 1 then Some ''operation not permitted''
         else if pid = 3 then Some ''no such process''
         else None)
      else if sig = 9 then Some ''operation not permitted''
      else None)"

definition example_procfs :: procfs where
  "example_procfs =
     \<lparr>open_proc = None,
      readdirs =
        [([\<lparr>Name = ''1'', IsDir = True\<rparr>, \<lparr>Name = ''self'', IsDir = True\<rparr>,
           \<lparr>Name = ''2'', IsDir = True\<rparr>], None),
         ([\<lparr>Name = ''3'', IsDir = True\<rparr>, \<lparr>Name = ''4'', IsDir = False\<rparr>], None)],
      files = example_files,
      kill = example_kill\<rparr>"

text \<open>The same table when \<^verbatim>\<open>/proc\<close> cannot be opened, and when the second read of the
  directory fails.\<close>

definition example_closed :: procfs where
  "example_closed = example_procfs\<lparr>open_proc := Some (PathError ''open'' ''/proc'' 13)\<rparr>"

definition example_broken :: procfs where
  "example_broken =
     example_procfs
       \<lparr>readdirs :=
          [([\<lparr>Name = ''1'', IsDir = True\<rparr>, \<lparr>Name = ''self'', IsDir = True\<rparr>,
             \<lparr>Name = ''2'', IsDir = True\<rparr>], None),
           ([], Some (PathError ''readdirent'' ''/proc'' 5))]\<rparr>"

text \<open>The same table when every command line reads \<^verbatim>\<open>a|bc\<close>.\<close>

definition example_renamed :: procfs where
  "example_renamed = example_procfs\<lparr>files := (\<lambda>p. Inr (''a|bc'' @ [CHR 0x00]))\<rparr>"

section \<open>Properties of the string functions\<close>

lemma Index_char_None: "Index s [c] = None \<longleftrightarrow> c \<notin> set s"
  by (induction s) auto

lemma Index_char_append:
  "c \<notin> set a \<Longrightarrow> Index (a @ c # b) [c] = Some (length a)"
  by (induction a) auto

lemma Index_char_SomeD:
  "Index s [c] = Some m \<Longrightarrow> m < length s \<and> s ! m = c \<and> c \<notin> set (take m s)"
proof (induction s arbitrary: m)
  case Nil
  then show ?case by simp
next
  case (Cons x s)
  show ?case
  proof (cases "x = c")
    case True
    with Cons.prems show ?thesis by simp
  next
    case False
    with Cons.prems obtain k where k: "Index s [c] = Some k" "m = Suc k"
      by auto
    from Cons.IH [OF k(1)] False k(2) show ?thesis by simp
  qed
qed

lemma Index_char_Some:
  "Index s [c] = Some m \<longleftrightarrow> (\<exists>a b. s = a @ c # b \<and> c \<notin> set a \<and> m = length a)"
proof
  assume h: "Index s [c] = Some m"
  from Index_char_SomeD [OF h]
  have "s = take m s @ c # drop (Suc m) s" "c \<notin> set (take m s)" "m = length (take m s)"
    by (auto simp: id_take_nth_drop)
  then show "\<exists>a b. s = a @ c # b \<and> c \<notin> set a \<and> m = length a"
    by blast
next
  assume "\<exists>a b. s = a @ c # b \<and> c \<notin> set a \<and> m = length a"
  then show "Index s [c] = Some m"
    by (auto simp: Index_char_append)
qed

lemma genSplit_1:
  "genSplit s [c] (Suc 0) = (case Index s [c] of None \<Rightarrow> [s] | Some m \<Rightarrow> [take m s, drop (Suc m) s])"
  by (simp split: option.splits)

lemma genSplit_2_fields:
  "length (genSplit s [c] 2) = 3 \<and> genSplit s [c] 2 ! 1 = b \<longleftrightarrow>
     (\<exists>a d. s = a @ c # b @ c # d \<and> c \<notin> set a \<and> c \<notin> set b)"
  (is "?L \<longleftrightarrow> ?R")
proof
  assume ?L
  then obtain m where m: "Index s [c] = Some m"
    by (cases "Index s [c]") (auto simp: numeral_2_eq_2)
  then obtain a r where s: "s = a @ c # r" "c \<notin> set a" "m = length a"
    by (auto simp: Index_char_Some)
  from \<open>?L\<close> m s obtain k where k: "Index r [c] = Some k"
    by (cases "Index r [c]") (auto simp: numeral_2_eq_2)
  then obtain b' d where r: "r = b' @ c # d" "c \<notin> set b'" "k = length b'"
    by (auto simp: Index_char_Some)
  from \<open>?L\<close> m s k r have "b' = b"
    by (auto simp: numeral_2_eq_2)
  with s r show ?R by auto
next
  assume ?R
  then obtain a d where s: "s = a @ c # b @ c # d" "c \<notin> set a" "c \<notin> set b"
    by blast
  then show ?L
    by (simp add: numeral_2_eq_2 Index_char_append)
qed

lemma genSplit_length_le: "length (genSplit s sep n) \<le> Suc n"
  by (induction s sep n rule: genSplit.induct) (auto split: option.splits)

lemma SplitN_3_devices:
  "length (SplitN line '':'' 3) = 3 \<and> SplitN line '':'' 3 ! 1 = ''devices'' \<longleftrightarrow>
     (\<exists>a d. line = a @ '':devices:'' @ d \<and> CHR '':'' \<notin> set a)"
proof (cases "2 \<le> length line")
  case True
  then have "SplitN line '':'' 3 = genSplit line '':'' 2"
    by (simp add: SplitN_def min_def)
  then show ?thesis
    using genSplit_2_fields [of line "CHR '':''" "''devices''"] by auto
next
  case False
  then have n: "min (nat 3) (length line + 1) - 1 \<le> 1"
    by (simp add: min_def)
  have "length (SplitN line '':'' 3) \<le> 2"
    using genSplit_length_le [of line "'':''" "min (nat 3) (length line + 1) - 1"] n
    by (simp add: SplitN_def)
  moreover have "\<not> (\<exists>a d. line = a @ '':devices:'' @ d \<and> CHR '':'' \<notin> set a)"
    using False by auto
  ultimately show ?thesis by auto
qed

section \<open>Properties of the cgroup parser\<close>

lemma devices_line_none:
  "(\<And>line. line \<in> set lines \<Longrightarrow>
      \<not> (length (SplitN line '':'' 3) = 3 \<and> SplitN line '':'' 3 ! 1 = ''devices'')) \<Longrightarrow>
   devices_line lines = Inl (ErrorString ''could not find devices cgroup location'')"
  by (induction lines) (simp_all add: Let_def)

text \<open>
  C9. A cgroup text none of whose lines has the form \<open>a:devices:d\<close> with \<open>a\<close> free of
  colons (that is, no line whose split on \<open>:\<close> into at most three fields has three
  fields, the middle one exactly \<open>devices\<close>) is refused with the error
  \<open>could not find devices cgroup location\<close>.
\<close>

theorem cgroup_parse_failure:
  assumes "\<forall>line \<in> set (Split content [CHR 0x0A]).
             \<not> (\<exists>a d. line = a @ '':devices:'' @ d \<and> CHR '':'' \<notin> set a)"
  shows "containerNameFromProcCgroup content =
           Inl (ErrorString ''could not find devices cgroup location'')"
  unfolding containerNameFromProcCgroup_def
proof (rule devices_line_none)
  fix line
  assume "line \<in> set (Split content [CHR 0x0A])"
  with assms have "\<not> (\<exists>a d. line = a @ '':devices:'' @ d \<and> CHR '':'' \<notin> set a)"
    by blast
  then show "\<not> (length (SplitN line '':'' 3) = 3 \<and> SplitN line '':'' 3 ! 1 = ''devices'')"
    using SplitN_3_devices [of line] by blast
qed

theorem cgroup_parse_failure_witness:
  "Split (''4:cpu,devices:/docker/nginx'' @ [CHR 0x0A] @ ''3:memory:/x'') [CHR 0x0A] =
     [''4:cpu,devices:/docker/nginx'', ''3:memory:/x''] \<and>
   containerNameFromProcCgroup (''4:cpu,devices:/docker/nginx'' @ [CHR 0x0A] @ ''3:memory:/x'') =
     Inl (ErrorString ''could not find devices cgroup location'')"
proof -
  have s: "Split (''4:cpu,devices:/docker/nginx'' @ [CHR 0x0A] @ ''3:memory:/x'') [CHR 0x0A] =
             [''4:cpu,devices:/docker/nginx'', ''3:memory:/x'']"
    by code_simp
  have a: "SplitN ''4:cpu,devices:/docker/nginx'' '':'' 3 ! 1 = ''cpu,devices''"
    by code_simp
  have b: "SplitN ''3:memory:/x'' '':'' 3 ! 1 = ''memory''"
    by code_simp
  have h: "\<forall>line \<in> set (Split (''4:cpu,devices:/docker/nginx'' @ [CHR 0x0A] @ ''3:memory:/x'') [CHR 0x0A]).
      \<not> (\<exists>a d. line = a @ '':devices:'' @ d \<and> CHR '':'' \<notin> set a)"
    unfolding s
    using SplitN_3_devices [of "''4:cpu,devices:/docker/nginx''"]
      SplitN_3_devices [of "''3:memory:/x''"] a b
    by simp
  from s cgroup_parse_failure [OF h] show ?thesis by blast
qed

text \<open>
  C3. On the text \<open>4:devices:/docker/nginx\<close> the parser succeeds, and the name it
  returns is the third field with white space trimmed and nothing else removed: the
  leading slash stays.
\<close>

theorem cgroup_parse_leading_slash:
  "containerNameFromProcCgroup ''4:devices:/docker/nginx'' = Inr ''/docker/nginx''"
  by code_simp

section \<open>Validation of the name\<close>

lemma Errorf_name_empty:
  "Errorf ''name should not be empty'' [] = Some (ErrorString ''name should not be empty'')"
  by (simp add: Errorf_def)

text \<open>
  C7. With the empty name, \<open>PidOf\<close> and \<open>PKill\<close> return the error
  \<open>name should not be empty\<close> at once: the list of events is empty, so no pattern was
  compiled, no file or directory was opened or read and no signal was sent, whatever
  the system is.
\<close>

theorem empty_name_validation:
  "PidOf w [] = Some ((Some [], Some (ErrorString ''name should not be empty'')), []) \<and>
   PKill w [] sig = Some (Some (ErrorString ''name should not be empty''), [])"
  by (simp add: PidOf_def PKill_def Errorf_name_empty)

section \<open>Properties of GetFullContainerName\<close>

text \<open>
  C8. When the read of the cgroup file of the pid fails: if the failure is that the file
  does not exist (\<open>IsNotExist\<close>), the result is the error \<open>ErrNotExist\<close>; a failure
  of any other kind is returned as it is, and it is not \<open>ErrNotExist\<close>.
\<close>

theorem container_name_not_found:
  assumes "files w (Join [''/proc'', Itoa pid, ''cgroup''] ''/'') = Inl err"
  shows "(IsNotExist err \<longrightarrow> fst (GetFullContainerName w pid) = Inl ErrNotExist) \<and>
         (\<not> IsNotExist err \<longrightarrow>
            fst (GetFullContainerName w pid) = Inl err \<and> err \<noteq> ErrNotExist)"
  using assms by (auto simp: GetFullContainerName_def Let_def)

theorem container_name_not_found_witness:
  "fst (GetFullContainerName example_procfs 3) = Inl ErrNotExist \<and>
   fst (GetFullContainerName example_procfs 2) = Inl (PathError ''open'' ''/proc/2/cgroup'' 13)"
proof -
  have f3: "files example_procfs (Join [''/proc'', Itoa 3, ''cgroup''] ''/'') =
              Inl (PathError ''open'' ''/proc/3/cgroup'' 2)"
    by code_simp
  have f2: "files example_procfs (Join [''/proc'', Itoa 2, ''cgroup''] ''/'') =
              Inl (PathError ''open'' ''/proc/2/cgroup'' 13)"
    by code_simp
  from container_name_not_found [OF f3] container_name_not_found [OF f2]
  show ?thesis by (simp add: ENOENT_def)
qed

section \<open>Properties of the scan\<close>

lemma scan_batch_fails:
  "\<forall>b \<in> set pre. snd b = None \<Longrightarrow> err \<noteq> EOF \<Longrightarrow>
   fst (scan w re (pre @ (ls, Some err) # rest) st) = None"
proof (induction pre arbitrary: st)
  case Nil
  then show ?case by simp
next
  case (Cons b pre)
  obtain l e where b: "b = (l, e)" by (cases b)
  with Cons.prems have "e = None" by simp
  with b Cons show ?case by simp
qed

lemma getPids_open_fails: "open_proc w = Some err \<Longrightarrow> getPids w re = (None, [EvOpen ''/proc''])"
  by (simp add: getPids_def)

lemma getPids_batch_fails:
  "open_proc w = None \<Longrightarrow> readdirs w = pre @ (ls, Some err) # rest \<Longrightarrow> err \<noteq> EOF \<Longrightarrow>
   \<forall>b \<in> set pre. snd b = None \<Longrightarrow> fst (getPids w re) = None"
  by (simp add: getPids_def scan_batch_fails)

text \<open>
  C4. When \<^verbatim>\<open>/proc\<close> cannot be opened, and when a read of the directory fails with
  an error other than \<open>EOF\<close> after any number of successful reads, \<open>getPids\<close>
  returns the nil slice: no pid, whatever the entries read before had matched. Its
  length is 0, as the length of the empty result of a scan without a match is.
\<close>

theorem scan_abort:
  "(open_proc w = Some err \<longrightarrow>
      fst (getPids w re) = None \<and> len (fst (getPids w re)) = 0 \<and> elems (fst (getPids w re)) = []) \<and>
   (open_proc w = None \<and> readdirs w = pre @ (ls, Some err) # rest \<and> err \<noteq> EOF \<and>
    (\<forall>b \<in> set pre. snd b = None) \<longrightarrow>
      fst (getPids w re) = None \<and> len (fst (getPids w re)) = 0 \<and> elems (fst (getPids w re)) = [])"
  using getPids_open_fails [of w err re] getPids_batch_fails [of w pre ls err rest re]
  by (auto simp: len_def elems_def)

theorem scan_abort_witness:
  "fst (getPids example_closed (Literal CHR ''n'')) = None \<and>
   fst (getPids example_broken (Literal CHR ''n'')) = None \<and>
   fst (scan_entry example_broken (Literal CHR ''n'') \<lparr>Name = ''1'', IsDir = True\<rparr>) = Some 1"
proof -
  have a: "open_proc example_closed = Some (PathError ''open'' ''/proc'' 13)"
    by (simp add: example_closed_def)
  have b: "open_proc example_broken = None \<and>
      readdirs example_broken =
        [([\<lparr>Name = ''1'', IsDir = True\<rparr>, \<lparr>Name = ''self'', IsDir = True\<rparr>,
           \<lparr>Name = ''2'', IsDir = True\<rparr>], None)] @
        ([], Some (PathError ''readdirent'' ''/proc'' 5)) # [] \<and>
      PathError ''readdirent'' ''/proc'' 5 \<noteq> EOF \<and>
      (\<forall>b \<in> set [([\<lparr>Name = ''1'', IsDir = True\<rparr>, \<lparr>Name = ''self'', IsDir = True\<rparr>,
           \<lparr>Name = ''2'', IsDir = True\<rparr>], None :: error option)]. snd b = None)"
    by (simp add: example_broken_def example_procfs_def)
  have c: "fst (scan_entry example_broken (Literal CHR ''n'') \<lparr>Name = ''1'', IsDir = True\<rparr>) = Some 1"
    by code_simp
  from a b c
    scan_abort [of example_closed "PathError ''open'' ''/proc'' 13" "Literal CHR ''n''"]
    scan_abort [of example_broken "PathError ''readdirent'' ''/proc'' 5" "Literal CHR ''n''"
      "[([\<lparr>Name = ''1'', IsDir = True\<rparr>, \<lparr>Name = ''self'', IsDir = True\<rparr>,
           \<lparr>Name = ''2'', IsDir = True\<rparr>], None)]" "[]" "[]"]
  show ?thesis by blast
qed

section \<open>Properties of PKill and PidOf\<close>

lemma PKill_no_pids:
  assumes "name \<noteq> []" and "Compile name = Some (Inr re)" and "len (fst (getPids w re)) = 0"
  shows "PKill w name sig =
           map_option (\<lambda>e. (Some e, EvCompile name # snd (getPids w re)))
             (Errorf ''unable to fetch pids for process name : %q'' [name])"
  using assms by (simp add: PKill_def Let_def)

lemma Errorf_unable:
  "Quote name = Some q \<Longrightarrow>
   Errorf ''unable to fetch pids for process name : %q'' [name] =
     Some (ErrorString (''unable to fetch pids for process name : '' @ q))"
  by (simp add: Errorf_def)

lemma PidOf_compiled:
  assumes "name \<noteq> []" and "Compile (''(^|/)'' @ name @ ''$'') = Some (Inr re)"
  shows "PidOf w name =
           Some ((fst (getPids w re), None),
                 EvCompile (''(^|/)'' @ name @ ''$'') # snd (getPids w re))"
  using assms by (simp add: PidOf_def)

text \<open>
  C6. For a non-empty name that compiles, when the scan finds no pid, \<open>PKill\<close>
  returns an error, with the text \<open>unable to fetch pids for process name : \<close> followed
  by the quoted name; when the scan of \<open>PidOf\<close> (with the anchored pattern) finds no
  pid, \<open>PidOf\<close> returns a list without elements and no error.
\<close>

theorem no_match_asymmetry:
  assumes "name \<noteq> []"
    and "Compile name = Some (Inr re)"
    and "len (fst (getPids w re)) = 0"
    and "Quote name = Some q"
    and "Compile (''(^|/)'' @ name @ ''$'') = Some (Inr re')"
    and "len (fst (getPids w re')) = 0"
  shows "map_option fst (PKill w name sig) =
           Some (Some (ErrorString (''unable to fetch pids for process name : '' @ q))) \<and>
         (\<exists>pids. map_option fst (PidOf w name) = Some (pids, None) \<and>
                 len pids = 0 \<and> elems pids = [])"
proof -
  have "map_option fst (PKill w name sig) =
           Some (Some (ErrorString (''unable to fetch pids for process name : '' @ q)))"
    using PKill_no_pids [OF assms(1-3)] Errorf_unable [OF assms(4)] by simp
  moreover have "map_option fst (PidOf w name) = Some (fst (getPids w re'), None)"
    using PidOf_compiled [OF assms(1) assms(5)] by simp
  moreover have "elems (fst (getPids w re')) = []"
    using assms(6) by (simp add: len_def elems_def split: option.splits)
  ultimately show ?thesis using assms(6) by blast
qed

theorem no_match_asymmetry_witness:
  "map_option fst (PKill example_procfs ''zzz'' 15) =
     Some (Some (ErrorString (''unable to fetch pids for process name : '' @
                                [CHR 0x22] @ ''zzz'' @ [CHR 0x22]))) \<and>
   map_option fst (PidOf example_procfs ''zzz'') = Some (Some [], None)"
proof -
  have n: "''zzz'' \<noteq> []" by simp
  have c: "Compile ''zzz'' = Some (Inr (mk_concat (map Literal ''zzz'')))"
    by code_simp
  have l: "len (fst (getPids example_procfs (mk_concat (map Literal ''zzz'')))) = 0"
    by code_simp
  have q: "Quote ''zzz'' = Some ([CHR 0x22] @ ''zzz'' @ [CHR 0x22])"
    by code_simp
  have c': "Compile (''(^|/)'' @ ''zzz'' @ ''$'') =
              Some (Inr (mk_concat (Capture (Alternate BeginText (Literal CHR ''/'')) #
                                    map Literal ''zzz'' @ [EndText])))"
    by code_simp
  have l': "len (fst (getPids example_procfs
              (mk_concat (Capture (Alternate BeginText (Literal CHR ''/'')) #
                          map Literal ''zzz'' @ [EndText])))) = 0"
    by code_simp
  have p: "map_option fst (PidOf example_procfs ''zzz'') = Some (Some [], None)"
    by code_simp
  from no_match_asymmetry [OF n c l q c' l', of 15] p show ?thesis by simp
qed

text \<open>
  C10. When the scan is aborted (\<^verbatim>\<open>/proc\<close> cannot be opened, or a read of the
  directory fails with an error other than \<open>EOF\<close>), \<open>getPids\<close> returns nil and
  \<open>PKill\<close> returns the error \<open>unable to fetch pids ...\<close>; this is the very error it
  returns on a system where the scan completes and matches nothing.
\<close>

theorem kill_conflates_abort:
  assumes "name \<noteq> []"
    and "Compile name = Some (Inr re)"
    and "Quote name = Some q"
    and "open_proc w = Some e \<or>
         (open_proc w = None \<and>
          (\<exists>pre ls err rest. readdirs w = pre @ (ls, Some err) # rest \<and> err \<noteq> EOF \<and>
             (\<forall>b \<in> set pre. snd b = None)))"
    and "fst (getPids w' re) = Some []"
  shows "fst (getPids w re) = None \<and>
         map_option fst (PKill w name sig) =
           Some (Some (ErrorString (''unable to fetch pids for process name : '' @ q))) \<and>
         map_option fst (PKill w' name sig) = map_option fst (PKill w name sig)"
proof -
  have nil: "fst (getPids w re) = None"
    using assms(4) getPids_open_fails [of w e re] getPids_batch_fails [of w _ _ _ _ re]
    by auto
  then have l: "len (fst (getPids w re)) = 0"
    by (simp add: len_def)
  have l': "len (fst (getPids w' re)) = 0"
    using assms(5) by (simp add: len_def)
  show ?thesis
    using nil PKill_no_pids [OF assms(1,2) l] PKill_no_pids [OF assms(1,2) l']
      Errorf_unable [OF assms(3)]
    by simp
qed

theorem kill_conflates_abort_witness:
  "fst (getPids example_closed (mk_concat (map Literal ''zzz''))) = None \<and>
   map_option fst (PKill example_closed ''zzz'' 15) =
     Some (Some (ErrorString (''unable to fetch pids for process name : '' @
                                [CHR 0x22] @ ''zzz'' @ [CHR 0x22]))) \<and>
   map_option fst (PKill example_procfs ''zzz'' 15) =
     map_option fst (PKill example_closed ''zzz'' 15) \<and>
   map_option fst (PKill example_procfs ''zzz'' 15) =
     map_option fst (PKill example_broken ''zzz'' 15)"
proof -
  have n: "''zzz'' \<noteq> []" by simp
  have c: "Compile ''zzz'' = Some (Inr (mk_concat (map Literal ''zzz'')))"
    by code_simp
  have q: "Quote ''zzz'' = Some ([CHR 0x22] @ ''zzz'' @ [CHR 0x22])"
    by code_simp
  have a: "open_proc example_closed = Some (PathError ''open'' ''/proc'' 13) \<or>
         (open_proc example_closed = None \<and>
          (\<exists>pre ls err rest. readdirs example_closed = pre @ (ls, Some err) # rest \<and> err \<noteq> EOF \<and>
             (\<forall>b \<in> set pre. snd b = None)))"
    by (simp add: example_closed_def)
  have "readdirs example_broken =
        [([\<lparr>Name = ''1'', IsDir = True\<rparr>, \<lparr>Name = ''self'', IsDir = True\<rparr>,
           \<lparr>Name = ''2'', IsDir = True\<rparr>], None)] @
        ([], Some (PathError ''readdirent'' ''/proc'' 5)) # [] \<and>
      PathError ''readdirent'' ''/proc'' 5 \<noteq> EOF \<and>
      (\<forall>b \<in> set [([\<lparr>Name = ''1'', IsDir = True\<rparr>, \<lparr>Name = ''self'', IsDir = True\<rparr>,
           \<lparr>Name = ''2'', IsDir = True\<rparr>], None :: error option)]. snd b = None)"
    by (simp add: example_broken_def example_procfs_def)
  then have "\<exists>pre ls err rest. readdirs example_broken = pre @ (ls, Some err) # rest \<and> err \<noteq> EOF \<and>
             (\<forall>b \<in> set pre. snd b = None)"
    by blast
  moreover have "open_proc example_broken = None"
    by (simp add: example_broken_def example_procfs_def)
  ultimately have b: "open_proc example_broken = Some EOF \<or>
         (open_proc example_broken = None \<and>
          (\<exists>pre ls err rest. readdirs example_broken = pre @ (ls, Some err) # rest \<and> err \<noteq> EOF \<and>
             (\<forall>b \<in> set pre. snd b = None)))"
    by blast
  have m: "fst (getPids example_procfs (mk_concat (map Literal ''zzz''))) = Some []"
    by code_simp
  from kill_conflates_abort [OF n c q a m, of 15] kill_conflates_abort [OF n c q b m, of 15]
  show ?thesis by simp
qed

section \<open>The errors of the signals\<close>

lemma Sprintf_no_percent: "CHR ''%'' \<notin> set s \<Longrightarrow> Sprintf s [] = Some s"
  by (induction s "[] :: string list" rule: Sprintf.induct) auto

lemma Sprintf_brackets: "Sprintf ''[ %s ]'' [j] = Some (''[ '' @ j @ '' ]'')"
  by simp

lemma remdups_append_cong:
  "set b = set b' \<Longrightarrow> remdups b = remdups b' \<Longrightarrow> remdups (a @ b) = remdups (a @ b')"
  by (induction a) auto

lemma first_occurrences_skip:
  "m \<in> set acc \<Longrightarrow>
   rev (remdups (rev (acc @ m # ys))) = rev (remdups (rev (acc @ ys)))"
proof -
  assume m: "m \<in> set acc"
  have "remdups (rev ys @ (m # rev acc)) = remdups (rev ys @ rev acc)"
    by (rule remdups_append_cong) (use m in auto)
  then show ?thesis by simp
qed

lemma kill_all_messages:
  "distinct (fst st) \<Longrightarrow>
   fst (kill_all w sig pids st) =
     rev (remdups (rev (fst st @ List.map_filter (\<lambda>pid. kill w pid sig) pids)))"
proof (induction pids arbitrary: st)
  case Nil
  then show ?case by (simp add: List.map_filter_simps distinct_remdups_id)
next
  case (Cons pid pids)
  show ?case
  proof (cases "kill w pid sig")
    case None
    with Cons show ?thesis by (simp add: List.map_filter_simps)
  next
    case (Some msg)
    show ?thesis
    proof (cases "msg \<in> set (fst st)")
      case True
      have "fst (kill_all w sig (pid # pids) st) =
              fst (kill_all w sig pids (fst st, snd st @ [EvKill pid sig]))"
        using Some True by simp
      also have "\<dots> = rev (remdups (rev (fst st @ List.map_filter (\<lambda>pid. kill w pid sig) pids)))"
        using Cons.IH [of "(fst st, snd st @ [EvKill pid sig])"] Cons.prems by simp
      also have "\<dots> = rev (remdups (rev (fst st @ msg # List.map_filter (\<lambda>pid. kill w pid sig) pids)))"
        using first_occurrences_skip [OF True] by metis
      finally show ?thesis
        using Some by (simp add: List.map_filter_simps)
    next
      case False
      with Cons.prems have "distinct (fst (fst st @ [msg], snd st @ [EvKill pid sig]))"
        by simp
      from Cons.IH [OF this] Some False show ?thesis
        by (simp add: List.map_filter_simps)
    qed
  qed
qed

lemma kill_all_events:
  "snd (kill_all w sig pids st) = snd st @ map (\<lambda>pid. EvKill pid sig) pids"
  by (induction pids arbitrary: st) (auto split: option.splits)

text \<open>
  C2, as the code has it. \<open>PKill\<close> sends the signal to every pid the scan returned, in
  order, and collects the texts of the failures, each text once, in the order of first
  occurrence (\<open>msgs\<close>). No text: success. One text without a percent sign: an error
  with that text (the text is handed to \<^verbatim>\<open>fmt.Errorf\<close> as the format). Several
  texts: one error whose text is the texts joined with a comma and no space, between
  \<open>[ \<close> and \<open> ]\<close>.
\<close>

theorem kill_error_aggregation:
  assumes "name \<noteq> []"
    and "Compile name = Some (Inr re)"
    and "fst (getPids w re) = Some pids"
    and "pids \<noteq> []"
    and "msgs = rev (remdups (rev (List.map_filter (\<lambda>pid. kill w pid sig) pids)))"
    and "tr = EvCompile name # snd (getPids w re) @ map (\<lambda>pid. EvKill pid sig) pids"
  shows "(msgs = [] \<longrightarrow> PKill w name sig = Some (None, tr)) \<and>
         (\<forall>m. msgs = [m] \<and> CHR ''%'' \<notin> set m \<longrightarrow>
              PKill w name sig = Some (Some (ErrorString m), tr)) \<and>
         (1 < length msgs \<longrightarrow>
              PKill w name sig =
                Some (Some (ErrorString (''[ '' @ Join msgs '','' @ '' ]'')), tr))"
proof -
  let ?st = "kill_all w sig pids ([], EvCompile name # snd (getPids w re))"
  have f: "fst ?st = msgs"
    using kill_all_messages [of "([], EvCompile name # snd (getPids w re))" w sig pids] assms(5)
    by simp
  have e: "snd ?st = tr"
    using kill_all_events [of w sig pids "([], EvCompile name # snd (getPids w re))"] assms(6)
    by simp
  have l: "len (fst (getPids w re)) \<noteq> 0" "elems (fst (getPids w re)) = pids"
    using assms(3,4) by (simp_all add: len_def elems_def)
  have p: "PKill w name sig =
             (if length msgs > 0
              then (if length msgs = 1
                    then map_option (\<lambda>e. (Some e, tr)) (Errorf (msgs ! 0) [])
                    else map_option (\<lambda>e. (Some e, tr)) (Errorf ''[ %s ]'' [Join msgs '','']))
              else Some (None, tr))"
    using assms(1,2) l f e by (simp add: PKill_def Let_def)
  have a: "msgs = [] \<longrightarrow> PKill w name sig = Some (None, tr)"
    using p by simp
  have b: "\<forall>m. msgs = [m] \<and> CHR ''%'' \<notin> set m \<longrightarrow>
              PKill w name sig = Some (Some (ErrorString m), tr)"
    using p by (auto simp: Errorf_def Sprintf_no_percent)
  have c: "1 < length msgs \<longrightarrow>
              PKill w name sig =
                Some (Some (ErrorString (''[ '' @ Join msgs '','' @ '' ]'')), tr)"
    using p Sprintf_brackets [of "Join msgs '',''"] by (auto simp: Errorf_def)
  from a b c show ?thesis by blast
qed

theorem kill_error_aggregation_witness:
  "map_option fst (PKill example_procfs ''ngin'' 1) = Some None \<and>
   map_option fst (PKill example_procfs ''ngin'' 9) =
     Some (Some (ErrorString ''operation not permitted'')) \<and>
   map_option fst (PKill example_procfs ''ngin'' 15) =
     Some (Some (ErrorString ''[ operation not permitted,no such process ]''))"
proof -
  have n: "''ngin'' \<noteq> []" by simp
  have c: "Compile ''ngin'' = Some (Inr (mk_concat (map Literal ''ngin'')))"
    by code_simp
  have g: "fst (getPids example_procfs (mk_concat (map Literal ''ngin''))) = Some [1, 3]"
    by code_simp
  have ne: "[1, 3] \<noteq> ([] :: int list)" by simp
  have m1: "[] = rev (remdups (rev (List.map_filter (\<lambda>pid. kill example_procfs pid 1) [1, 3])))"
    by code_simp
  have m9: "[''operation not permitted''] =
              rev (remdups (rev (List.map_filter (\<lambda>pid. kill example_procfs pid 9) [1, 3])))"
    by code_simp
  have m15: "[''operation not permitted'', ''no such process''] =
              rev (remdups (rev (List.map_filter (\<lambda>pid. kill example_procfs pid 15) [1, 3])))"
    by code_simp
  have p: "CHR ''%'' \<notin> set ''operation not permitted''" by simp
  from kill_error_aggregation [OF n c g ne m1 refl]
  have r1: "map_option fst (PKill example_procfs ''ngin'' 1) = Some None"
    by simp
  from kill_error_aggregation [OF n c g ne m9 refl] p
  have r9: "map_option fst (PKill example_procfs ''ngin'' 9) =
              Some (Some (ErrorString ''operation not permitted''))"
    by simp
  from kill_error_aggregation [OF n c g ne m15 refl]
  have r15: "map_option fst (PKill example_procfs ''ngin'' 15) =
     Some (Some (ErrorString ''[ operation not permitted,no such process ]''))"
    by simp
  from r1 r9 r15 show ?thesis by blast
qed

text \<open>
  On the example system, signal 15 fails with two different texts; the text of the error
  of \<open>PKill\<close> has them separated by a comma alone, not by a comma and a space.
\<close>

theorem kill_error_join_counterexample:
  "map_option fst (PKill example_procfs ''ngin'' 15) =
     Some (Some (ErrorString ''[ operation not permitted,no such process ]'')) \<and>
   ''[ operation not permitted,no such process ]'' \<noteq>
     ''[ '' @ Join [''operation not permitted'', ''no such process''] '', '' @ '' ]'' \<and>
   \<not> sublist (Join [''operation not permitted'', ''no such process''] '', '')
       ''[ operation not permitted,no such process ]''"
  by code_simp

section \<open>Unreadable command lines\<close>

lemma scan_batch_result:
  "scan_batch w re ls st =
     (fst st @ List.map_filter (\<lambda>e. fst (scan_entry w re e)) ls,
      snd st @ concat (map (\<lambda>e. snd (scan_entry w re e)) ls))"
proof (induction ls arbitrary: st)
  case Nil
  then show ?case by (simp add: List.map_filter_simps)
next
  case (Cons e ls)
  obtain r evs where r: "scan_entry w re e = (r, evs)" by (cases "scan_entry w re e")
  show ?case
    using Cons.IH r by (cases r) (simp_all add: List.map_filter_simps)
qed

lemma map_filter_append:
  "List.map_filter f (xs @ ys) = List.map_filter f xs @ List.map_filter f ys"
  by (simp add: List.map_filter_def)

lemma scan_complete:
  "\<forall>b \<in> set pre. snd b = None \<Longrightarrow>
   tl' = [] \<or> (\<exists>ls rest. tl' = (ls, Some EOF) # rest) \<Longrightarrow>
   fst (scan w re (pre @ tl') st) =
     Some (fst st @ List.map_filter (\<lambda>e. fst (scan_entry w re e)) (concat (map fst pre)))"
proof (induction pre arbitrary: st)
  case Nil
  then show ?case by (auto simp: List.map_filter_simps)
next
  case (Cons b pre)
  obtain l e where b: "b = (l, e)" by (cases b)
  with Cons.prems have e: "e = None" by simp
  have "\<forall>b \<in> set pre. snd b = None" using Cons.prems by simp
  from Cons.IH [OF this Cons.prems(2)] b e show ?case
    by (simp add: scan_batch_result map_filter_append)
qed

lemma scan_entry_unreadable:
  "files w (Join [''/proc'', Name e, ''cmdline''] ''/'') = Inl err \<Longrightarrow>
   fst (scan_entry w re e) = None"
  by (simp add: scan_entry_def Let_def split: option.splits)

lemma map_filter_skip:
  "(\<And>x. x \<in> set xs \<Longrightarrow> \<not> P x \<Longrightarrow> f x = None) \<Longrightarrow>
   List.map_filter f (filter P xs) = List.map_filter f xs"
  by (induction xs) (auto simp: List.map_filter_simps split: option.splits)

text \<open>
  C5. In a scan that is not aborted (\<^verbatim>\<open>/proc\<close> opens, and every read of the directory
  succeeds until the directory is exhausted or \<open>EOF\<close> is returned), an entry whose
  command line cannot be read contributes no pid, and the result is the list of the
  pids that the other entries contribute, in the order of the directory: the same list as
  if the unreadable entries were not there. \<open>getPids\<close> has no error result; the failed
  read leaves nothing but its event.
\<close>

theorem unreadable_cmdline_skipped:
  assumes "open_proc w = None"
    and "\<forall>b \<in> set pre. snd b = None"
    and "readdirs w = pre \<or> (\<exists>ls rest. readdirs w = pre @ (ls, Some EOF) # rest)"
  shows "fst (getPids w re) =
           Some (List.map_filter (\<lambda>e. fst (scan_entry w re e))
                   (filter (\<lambda>e. \<not> isl (files w (Join [''/proc'', Name e, ''cmdline''] ''/'')))
                      (concat (map fst pre)))) \<and>
         (\<forall>e err. files w (Join [''/proc'', Name e, ''cmdline''] ''/'') = Inl err \<longrightarrow>
                    fst (scan_entry w re e) = None)"
proof -
  obtain tl' where t: "readdirs w = pre @ tl'" "tl' = [] \<or> (\<exists>ls rest. tl' = (ls, Some EOF) # rest)"
    using assms(3) by auto
  have "fst (getPids w re) =
          Some (List.map_filter (\<lambda>e. fst (scan_entry w re e)) (concat (map fst pre)))"
    using assms(1) t(1) scan_complete [OF assms(2) t(2), of w re "([], [EvOpen ''/proc''])"]
    by (simp add: getPids_def)
  moreover have "List.map_filter (\<lambda>e. fst (scan_entry w re e))
                   (filter (\<lambda>e. \<not> isl (files w (Join [''/proc'', Name e, ''cmdline''] ''/'')))
                      (concat (map fst pre))) =
                 List.map_filter (\<lambda>e. fst (scan_entry w re e)) (concat (map fst pre))"
  proof (rule map_filter_skip)
    fix x :: dirent
    assume "\<not> \<not> isl (files w (Join [''/proc'', Name x, ''cmdline''] ''/''))"
    then obtain err where "files w (Join [''/proc'', Name x, ''cmdline''] ''/'') = Inl err"
      by (cases "files w (Join [''/proc'', Name x, ''cmdline''] ''/'')") auto
    then show "fst (scan_entry w re x) = None"
      by (rule scan_entry_unreadable)
  qed
  ultimately show ?thesis
    using scan_entry_unreadable [of w _ _ re] by auto
qed

theorem unreadable_cmdline_skipped_witness:
  "files example_procfs ''/proc/2/cmdline'' = Inl (PathError ''open'' ''/proc/2/cmdline'' 13) \<and>
   fst (scan_entry example_procfs (mk_concat (map Literal ''ngin'')) \<lparr>Name = ''2'', IsDir = True\<rparr>) = None \<and>
   fst (getPids example_procfs (mk_concat (map Literal ''ngin''))) = Some [1, 3]"
proof -
  have o: "open_proc example_procfs = None"
    by (simp add: example_procfs_def)
  have b: "\<forall>b \<in> set (readdirs example_procfs). snd b = None"
    by (simp add: example_procfs_def)
  have r: "readdirs example_procfs = readdirs example_procfs \<or>
           (\<exists>ls rest. readdirs example_procfs = readdirs example_procfs @ (ls, Some EOF) # rest)"
    by simp
  have f: "files example_procfs (Join [''/proc'', Name \<lparr>Name = ''2'', IsDir = True\<rparr>, ''cmdline''] ''/'') =
             Inl (PathError ''open'' ''/proc/2/cmdline'' 13)"
    by code_simp
  have f': "files example_procfs ''/proc/2/cmdline'' = Inl (PathError ''open'' ''/proc/2/cmdline'' 13)"
    by code_simp
  have v: "List.map_filter (\<lambda>e. fst (scan_entry example_procfs (mk_concat (map Literal ''ngin'')) e))
             (filter (\<lambda>e. \<not> isl (files example_procfs (Join [''/proc'', Name e, ''cmdline''] ''/'')))
                (concat (map fst (readdirs example_procfs)))) = [1, 3]"
    by code_simp
  from unreadable_cmdline_skipped [OF o b r, of "mk_concat (map Literal ''ngin'')"] f f' v
  show ?thesis by simp
qed

section \<open>The patterns of PidOf and PKill\<close>

lemma plain_char_not_special:
  "plain_char c \<Longrightarrow>
   c \<noteq> CHR ''('' \<and> c \<noteq> CHR '')'' \<and> c \<noteq> CHR ''|'' \<and> c \<noteq> CHR ''^'' \<and> c \<noteq> CHR ''$''"
  by (auto simp: plain_char_def metachars_def)

lemma parse_plain:
  "plain s \<Longrightarrow>
   parse whole f fs (s @ rest) = parse whole (fst f, rev (map Literal s) @ snd f) fs rest"
proof (induction s arbitrary: f)
  case Nil
  then show ?case by simp
next
  case (Cons c s)
  then have c: "plain_char c" and s: "plain s"
    by (simp_all add: plain_def)
  from plain_char_not_special [OF c] c Cons.IH [OF s] show ?case
    by simp
qed

lemma mk_concat_Cons: "rs \<noteq> [] \<Longrightarrow> mk_concat (r # rs) = Concat r (mk_concat rs)"
  by (cases rs) simp_all

lemma Compile_plain:
  assumes "plain name"
  shows "Compile name = Some (Inr (mk_concat (map Literal name)))"
  using parse_plain [OF assms, of name "([], [])" "[]" "[]"]
  by (simp add: Compile_def close_frame_def)

lemma plain_slash: "plain_char CHR ''/''"
  by (simp add: plain_char_def metachars_def)

lemma Compile_anchored:
  assumes "plain name"
  shows "Compile (''(^|/)'' @ name @ ''$'') =
           Some (Inr (Concat (Capture (Alternate BeginText (Literal CHR ''/'')))
                        (mk_concat (map Literal name @ [EndText]))))"
proof -
  let ?whole = "''(^|/)'' @ name @ ''$''"
  let ?g = "Capture (Alternate BeginText (Literal CHR ''/''))"
  have "parse ?whole ([], []) [] ?whole = parse ?whole ([], [?g]) [] (name @ ''$'')"
    by (simp add: plain_slash close_frame_def)
  also have "\<dots> = parse ?whole ([], rev (map Literal name) @ [?g]) [] ''$''"
    using parse_plain [OF assms, of ?whole "([], [?g])" "[]" "''$''"] by simp
  also have "\<dots> = Some (Inr (mk_concat (?g # map Literal name @ [EndText])))"
    by (simp add: close_frame_def plain_char_def metachars_def)
  finally show ?thesis
    by (simp add: Compile_def mk_concat_Cons)
qed

lemma list_ex_upto: "list_ex P [0..<Suc n] \<longleftrightarrow> (\<exists>i\<le>n. P i)"
  unfolding list_ex_iff set_upt by (auto simp: less_Suc_eq_le)

lemma rmatch_Concat:
  "rmatch (Concat r1 r2) b s e \<longleftrightarrow>
     (\<exists>i\<le>length s. rmatch r1 b (take i s) (e \<and> i = length s) \<and>
                     rmatch r2 (b \<and> i = 0) (drop i s) e)"
  unfolding rmatch.simps list_ex_upto ..

declare rmatch.simps(6) [simp del]

lemma take_singleton: "take i s = [c] \<Longrightarrow> i \<noteq> 0 \<and> (\<exists>s'. s = c # s' \<and> drop i s = s')"
proof -
  assume a: "take i s = [c]"
  then have "i \<noteq> 0" by (cases i) auto
  then obtain k where k: "i = Suc k" by (cases i) auto
  from a k obtain s' where s: "s = c # s'" by (cases s) auto
  with a k have "take k s' = []" by simp
  then have "k = 0 \<or> s' = []" by (cases s'; cases k) auto
  with s k show ?thesis by auto
qed

lemma rmatch_Literal_Concat:
  "rmatch (Concat (Literal c) r) b s e \<longleftrightarrow> (\<exists>s'. s = c # s' \<and> rmatch r False s' e)"
proof
  assume "rmatch (Concat (Literal c) r) b s e"
  then obtain i where i: "i \<le> length s" "take i s = [c]" "rmatch r (b \<and> i = 0) (drop i s) e"
    by (auto simp: rmatch_Concat)
  from take_singleton [OF i(2)] i(3) show "\<exists>s'. s = c # s' \<and> rmatch r False s' e"
    by auto
next
  assume "\<exists>s'. s = c # s' \<and> rmatch r False s' e"
  then obtain s' where "s = c # s'" "rmatch r False s' e" by blast
  then have "1 \<le> length s \<and> rmatch (Literal c) b (take 1 s) (e \<and> 1 = length s) \<and>
             rmatch r (b \<and> (1::nat) = 0) (drop 1 s) e"
    by simp
  then show "rmatch (Concat (Literal c) r) b s e"
    unfolding rmatch_Concat by blast
qed

lemma rmatch_literals_end:
  "rmatch (mk_concat (map Literal p @ [EndText])) b s e \<longleftrightarrow> s = p \<and> e"
proof (induction p arbitrary: b s)
  case Nil
  then show ?case by auto
next
  case (Cons c p)
  have "mk_concat (map Literal (c # p) @ [EndText]) =
          Concat (Literal c) (mk_concat (map Literal p @ [EndText]))"
    by (simp add: mk_concat_Cons)
  then show ?case
    using Cons.IH by (auto simp: rmatch_Literal_Concat)
qed

lemma rmatch_literals:
  "p \<noteq> [] \<Longrightarrow> rmatch (mk_concat (map Literal p)) b s e \<longleftrightarrow> s = p"
proof (induction p arbitrary: b s)
  case Nil
  then show ?case by simp
next
  case (Cons c p)
  show ?case
  proof (cases "p = []")
    case True
    then show ?thesis by simp
  next
    case False
    then have "mk_concat (map Literal (c # p)) = Concat (Literal c) (mk_concat (map Literal p))"
      by (simp add: mk_concat_Cons)
    then show ?thesis
      using Cons.IH [OF False] by (auto simp: rmatch_Literal_Concat)
  qed
qed

lemma rmatch_anchor_group:
  "rmatch (Concat (Capture (Alternate BeginText (Literal CHR ''/''))) r) b s e \<longleftrightarrow>
     (b \<and> rmatch r b s e) \<or> (\<exists>s'. s = CHR ''/'' # s' \<and> rmatch r False s' e)"
proof -
  have "rmatch (Concat (Capture (Alternate BeginText (Literal CHR ''/''))) r) b s e \<longleftrightarrow>
          (\<exists>i\<le>length s. (take i s = [] \<and> b \<or> take i s = [CHR ''/'']) \<and>
                          rmatch r (b \<and> i = 0) (drop i s) e)"
    by (simp add: rmatch_Concat)
  also have "\<dots> \<longleftrightarrow> (b \<and> rmatch r b s e) \<or> (\<exists>s'. s = CHR ''/'' # s' \<and> rmatch r False s' e)"
  proof
    assume "\<exists>i\<le>length s. (take i s = [] \<and> b \<or> take i s = [CHR ''/'']) \<and>
                          rmatch r (b \<and> i = 0) (drop i s) e"
    then obtain i where i: "i \<le> length s" "take i s = [] \<and> b \<or> take i s = [CHR ''/'']"
      "rmatch r (b \<and> i = 0) (drop i s) e" by blast
    from i(2) show "(b \<and> rmatch r b s e) \<or> (\<exists>s'. s = CHR ''/'' # s' \<and> rmatch r False s' e)"
    proof
      assume a: "take i s = [] \<and> b"
      show ?thesis
      proof (cases "i = 0")
        case True
        with a i(3) show ?thesis by simp
      next
        case False
        with a have "s = []" by (cases s) auto
        with i(1) False show ?thesis by simp
      qed
    next
      assume a: "take i s = [CHR ''/'']"
      from take_singleton [OF a] i(3) show ?thesis by auto
    qed
  next
    assume "(b \<and> rmatch r b s e) \<or> (\<exists>s'. s = CHR ''/'' # s' \<and> rmatch r False s' e)"
    then show "\<exists>i\<le>length s. (take i s = [] \<and> b \<or> take i s = [CHR ''/'']) \<and>
                          rmatch r (b \<and> i = 0) (drop i s) e"
    proof
      assume "b \<and> rmatch r b s e"
      then have "b" "rmatch r True s e" by auto
      then have "0 \<le> length s \<and> (take 0 s = [] \<and> b \<or> take 0 s = [CHR ''/'']) \<and>
                 rmatch r (b \<and> (0::nat) = 0) (drop 0 s) e" by simp
      then show ?thesis by blast
    next
      assume "\<exists>s'. s = CHR ''/'' # s' \<and> rmatch r False s' e"
      then obtain s' where "s = CHR ''/'' # s'" "rmatch r False s' e" by blast
      then have "1 \<le> length s \<and> (take 1 s = [] \<and> b \<or> take 1 s = [CHR ''/'']) \<and>
                 rmatch r (b \<and> (1::nat) = 0) (drop 1 s) e" by simp
      then show ?thesis by blast
    qed
  qed
  finally show ?thesis .
qed

lemma MatchString_iff:
  "MatchString re s \<longleftrightarrow>
     (\<exists>i j. i \<le> j \<and> j \<le> length s \<and>
            rmatch re (i = 0) (take (j - i) (drop i s)) (j = length s))"
proof -
  have "MatchString re s \<longleftrightarrow>
          (\<exists>i. i < Suc (length s) \<and>
             (\<exists>j. (i \<le> j \<and> j < Suc (length s)) \<and>
                rmatch re (i = 0) (take (j - i) (drop i s)) (j = length s)))"
    unfolding MatchString_def list_ex_iff set_upt Bex_def atLeastLessThan_iff by simp
  also have "\<dots> \<longleftrightarrow> (\<exists>i j. i \<le> j \<and> j \<le> length s \<and>
            rmatch re (i = 0) (take (j - i) (drop i s)) (j = length s))"
    unfolding less_Suc_eq_le by (meson le_trans)
  finally show ?thesis .
qed

lemma MatchString_anchored:
  "MatchString (Concat (Capture (Alternate BeginText (Literal CHR ''/'')))
                  (mk_concat (map Literal name @ [EndText]))) tok \<longleftrightarrow>
     tok = name \<or> suffix (CHR ''/'' # name) tok"
  (is "MatchString ?re tok \<longleftrightarrow> ?R")
proof
  assume "MatchString ?re tok"
  then obtain i j where ij: "i \<le> j" "j \<le> length tok"
      "rmatch ?re (i = 0) (take (j - i) (drop i tok)) (j = length tok)"
    unfolding MatchString_iff by blast
  from ij(3) have e: "j = length tok"
    by (auto simp: rmatch_anchor_group rmatch_literals_end)
  with ij(1) have piece: "take (j - i) (drop i tok) = drop i tok" by simp
  from ij(3) have "(i = 0 \<and> drop i tok = name) \<or> drop i tok = CHR ''/'' # name"
    unfolding piece by (auto simp: rmatch_anchor_group rmatch_literals_end)
  then show ?R
  proof
    assume "i = 0 \<and> drop i tok = name"
    then have "tok = name" by auto
    then show ?thesis by blast
  next
    assume "drop i tok = CHR ''/'' # name"
    then have "tok = take i tok @ CHR ''/'' # name"
      by (metis append_take_drop_id)
    then show ?thesis
      unfolding suffix_def by blast
  qed
next
  assume ?R
  then show "MatchString ?re tok"
  proof
    assume t: "tok = name"
    have "(0::nat) \<le> length tok \<and> length tok \<le> length tok \<and>
          rmatch ?re ((0::nat) = 0) (take (length tok - 0) (drop 0 tok)) (length tok = length tok)"
      using t by (simp add: rmatch_anchor_group rmatch_literals_end)
    then show ?thesis unfolding MatchString_iff by blast
  next
    assume "suffix (CHR ''/'' # name) tok"
    then obtain zs where t: "tok = zs @ CHR ''/'' # name"
      unfolding suffix_def by blast
    have "length zs \<le> length tok \<and> length tok \<le> length tok \<and>
          rmatch ?re (length zs = 0) (take (length tok - length zs) (drop (length zs) tok))
            (length tok = length tok)"
      using t by (simp add: rmatch_anchor_group rmatch_literals_end)
    then show ?thesis unfolding MatchString_iff by blast
  qed
qed

lemma MatchString_literals:
  assumes "name \<noteq> []"
  shows "MatchString (mk_concat (map Literal name)) tok \<longleftrightarrow> sublist name tok"
proof
  assume "MatchString (mk_concat (map Literal name)) tok"
  then obtain i j where ij: "i \<le> j" "j \<le> length tok" "take (j - i) (drop i tok) = name"
    unfolding MatchString_iff by (auto simp: rmatch_literals [OF assms])
  have "tok = take i tok @ take (j - i) (drop i tok) @ drop (j - i) (drop i tok)"
    by (simp only: append_take_drop_id)
  with ij(3) have "tok = take i tok @ name @ drop (j - i) (drop i tok)"
    by simp
  then show "sublist name tok"
    unfolding sublist_def by blast
next
  assume "sublist name tok"
  then obtain ps ss where t: "tok = ps @ name @ ss"
    unfolding sublist_def by blast
  have "length ps \<le> length ps + length name \<and> length ps + length name \<le> length tok \<and>
        rmatch (mk_concat (map Literal name)) (length ps = 0)
          (take (length ps + length name - length ps) (drop (length ps) tok))
          (length ps + length name = length tok)"
    using t by (simp add: rmatch_literals [OF assms])
  then show "MatchString (mk_concat (map Literal name)) tok"
    unfolding MatchString_iff by blast
qed

lemma genSplit_nonempty: "genSplit s sep n \<noteq> []"
  by (cases n) (simp_all split: option.splits)

lemma scan_entry_match:
  assumes "IsDir e" and "Atoi (Name e) = Some pid"
    and "files w (Join [''/proc'', Name e, ''cmdline''] ''/'') = Inr cmdline"
    and "FieldsFunc (hd (SplitN cmdline [CHR 0x00] 2)) = tok # toks"
  shows "fst (scan_entry w re e) = (if MatchString re tok then Some pid else None)"
proof -
  have "SplitN cmdline [CHR 0x00] 2 \<noteq> []"
    by (simp add: SplitN_def genSplit_nonempty)
  then have "length (SplitN cmdline [CHR 0x00] 2) \<noteq> 0"
    and "SplitN cmdline [CHR 0x00] 2 ! 0 = hd (SplitN cmdline [CHR 0x00] 2)"
    by (simp_all add: hd_conv_nth)
  with assms show ?thesis
    by (simp add: scan_entry_def Let_def)
qed

lemma scan_entry_first_token:
  "fst (scan_entry w re e) =
     (case first_token w e of
        None \<Rightarrow> None
      | Some p \<Rightarrow> if MatchString re (snd p) then Some (fst p) else None)"
  by (simp add: scan_entry_def first_token_def Let_def split: option.splits sum.splits)

lemma scan_entries_tokens:
  "List.map_filter (\<lambda>e. fst (scan_entry w re e)) es =
     map fst (filter (\<lambda>p. MatchString re (snd p)) (List.map_filter (first_token w) es))"
  by (induction es)
    (simp_all add: List.map_filter_simps scan_entry_first_token split: option.splits)

lemma getPids_complete:
  assumes "open_proc w = None"
    and "\<forall>b \<in> set pre. snd b = None"
    and "readdirs w = pre \<or> (\<exists>ls rest. readdirs w = pre @ (ls, Some EOF) # rest)"
  shows "fst (getPids w re) =
           Some (map fst (filter (\<lambda>p. MatchString re (snd p))
                   (List.map_filter (first_token w) (concat (map fst pre)))))"
proof -
  obtain tl' where t: "readdirs w = pre @ tl'" "tl' = [] \<or> (\<exists>ls rest. tl' = (ls, Some EOF) # rest)"
    using assms(3) by auto
  show ?thesis
    using assms(1) t(1) scan_complete [OF assms(2) t(2), of w re "([], [EvOpen ''/proc''])"]
    by (simp add: getPids_def scan_entries_tokens)
qed

lemma PKill_signals:
  assumes "name \<noteq> []"
    and "Compile name = Some (Inr re)"
    and "fst (getPids w re) = Some pids"
    and "pids \<noteq> []"
    and "msgs = rev (remdups (rev (List.map_filter (\<lambda>pid. kill w pid sig) pids)))"
    and "tr = EvCompile name # snd (getPids w re) @ map (\<lambda>pid. EvKill pid sig) pids"
  shows "PKill w name sig =
             (if length msgs > 0
              then (if length msgs = 1
                    then map_option (\<lambda>e. (Some e, tr)) (Errorf (msgs ! 0) [])
                    else map_option (\<lambda>e. (Some e, tr)) (Errorf ''[ %s ]'' [Join msgs '','']))
              else Some (None, tr))"
proof -
  let ?st = "kill_all w sig pids ([], EvCompile name # snd (getPids w re))"
  have f: "fst ?st = msgs"
    using kill_all_messages [of "([], EvCompile name # snd (getPids w re))" w sig pids] assms(5)
    by simp
  have e: "snd ?st = tr"
    using kill_all_events [of w sig pids "([], EvCompile name # snd (getPids w re))"] assms(6)
    by simp
  have l: "len (fst (getPids w re)) \<noteq> 0" "elems (fst (getPids w re)) = pids"
    using assms(3,4) by (simp_all add: len_def elems_def)
  show ?thesis
    using assms(1,2) l f e by (simp add: PKill_def Let_def)
qed

lemma PKill_events:
  assumes "name \<noteq> []"
    and "Compile name = Some (Inr re)"
    and "fst (getPids w re) = Some pids"
  shows "map_option snd (PKill w name sig) =
           map_option (\<lambda>r. EvCompile name # snd (getPids w re) @ map (\<lambda>pid. EvKill pid sig) pids)
             (PKill w name sig)"
proof (cases "pids = []")
  case True
  then have "len (fst (getPids w re)) = 0"
    using assms(3) by (simp add: len_def)
  from PKill_no_pids [OF assms(1,2) this] True show ?thesis
    by (simp add: option.map_comp comp_def)
next
  case False
  from PKill_signals [OF assms False refl refl] show ?thesis
    by (simp add: option.map_comp comp_def)
qed

lemma PKill_delivered:
  assumes "name \<noteq> []"
    and "Compile name = Some (Inr re)"
    and "fst (getPids w re) = Some pids"
    and "pids \<noteq> []"
    and "\<forall>pid \<in> set pids. kill w pid sig = None"
  shows "PKill w name sig =
           Some (None, EvCompile name # snd (getPids w re) @ map (\<lambda>pid. EvKill pid sig) pids)"
proof -
  have "List.map_filter (\<lambda>pid. kill w pid sig) pids = []"
    using assms(5) by (induction pids) (simp_all add: List.map_filter_simps)
  with PKill_signals [OF assms(1-4) refl refl] show ?thesis by simp
qed

lemma PKill_defined:
  assumes "name \<noteq> []"
    and "Compile name = Some (Inr re)"
    and "fst (getPids w re) = Some pids"
    and "Quote name \<noteq> None"
    and "\<forall>pid m. kill w pid sig = Some m \<longrightarrow> CHR ''%'' \<notin> set m"
  shows "PKill w name sig \<noteq> None"
proof (cases "pids = []")
  case True
  then have "len (fst (getPids w re)) = 0"
    using assms(3) by (simp add: len_def)
  from PKill_no_pids [OF assms(1,2) this] assms(4) Errorf_unable [of name] show ?thesis
    by auto
next
  case False
  let ?msgs = "rev (remdups (rev (List.map_filter (\<lambda>pid. kill w pid sig) pids)))"
  have p: "PKill w name sig =
             (if length ?msgs > 0
              then (if length ?msgs = 1
                    then map_option (\<lambda>e. (Some e, EvCompile name # snd (getPids w re) @
                                                  map (\<lambda>pid. EvKill pid sig) pids))
                           (Errorf (?msgs ! 0) [])
                    else map_option (\<lambda>e. (Some e, EvCompile name # snd (getPids w re) @
                                                  map (\<lambda>pid. EvKill pid sig) pids))
                           (Errorf ''[ %s ]'' [Join ?msgs '','']))
              else Some (None, EvCompile name # snd (getPids w re) @
                               map (\<lambda>pid. EvKill pid sig) pids))"
    by (rule PKill_signals [OF assms(1-3) False refl refl])
  have one: "length ?msgs = 1 \<Longrightarrow> Errorf (?msgs ! 0) [] \<noteq> None"
  proof -
    assume "length ?msgs = 1"
    then have "?msgs ! 0 \<in> set ?msgs" by (simp only: nth_mem zero_less_one)
    then have "?msgs ! 0 \<in> set (List.map_filter (\<lambda>pid. kill w pid sig) pids)" by simp
    then obtain pid where "kill w pid sig = Some (?msgs ! 0)"
      by (auto simp: List.map_filter_def)
    with assms(5) have "CHR ''%'' \<notin> set (?msgs ! 0)" by blast
    then show ?thesis by (simp add: Errorf_def Sprintf_no_percent)
  qed
  have many: "Errorf ''[ %s ]'' [Join ?msgs '',''] \<noteq> None"
    using Sprintf_brackets [of "Join ?msgs '',''"] by (simp add: Errorf_def)
  from p one many show ?thesis
    by (auto split: if_splits)
qed

text \<open>
  C1, for the names that are plain text. Take a non-empty name of ASCII characters none
  of which is a metacharacter, and a system whose scan is not aborted; \<open>procs\<close> are
  its processes in the order of the directory, each with its pid and the first token of
  its command line. Both patterns compile. The anchored pattern of \<open>PidOf\<close> matches
  a token exactly when the token is the name or ends with a slash followed by the name,
  and \<open>PidOf\<close> returns, with no error, the pids of the processes with such a token
  (\<open>found\<close>). The pattern of \<open>PKill\<close> is the name itself and matches a token
  exactly when the name occurs in it: the scan of \<open>PKill\<close> returns the pids of the
  processes whose token contains the name (\<open>killed\<close>); \<open>PKill\<close> sends the signal
  to these pids, in order, and to no other, returns nil when every signal is delivered,
  and returns the error \<open>unable to fetch pids ...\<close> when there is none. Its result
  is within the model whenever the name can be quoted and no error text of a signal has
  a percent sign.
\<close>

theorem pattern_anchoring:
  assumes "name \<noteq> []" and "plain name"
    and "open_proc w = None"
    and "\<forall>b \<in> set pre. snd b = None"
    and "readdirs w = pre \<or> (\<exists>ls rest. readdirs w = pre @ (ls, Some EOF) # rest)"
    and "procs = List.map_filter (first_token w) (concat (map fst pre))"
    and "found = map fst (filter (\<lambda>p. snd p = name \<or> suffix (CHR ''/'' # name) (snd p)) procs)"
    and "killed = map fst (filter (\<lambda>p. sublist name (snd p)) procs)"
  shows "\<exists>re re'.
           Compile (''(^|/)'' @ name @ ''$'') = Some (Inr re) \<and>
           Compile name = Some (Inr re') \<and>
           (\<forall>tok. MatchString re tok \<longleftrightarrow> tok = name \<or> suffix (CHR ''/'' # name) tok) \<and>
           (\<forall>tok. MatchString re' tok \<longleftrightarrow> sublist name tok) \<and>
           (\<forall>w'. map_option fst (PidOf w' name) = Some (fst (getPids w' re), None)) \<and>
           map_option fst (PidOf w name) = Some (Some found, None) \<and>
           fst (getPids w re') = Some killed \<and>
           (killed = [] \<longrightarrow>
              map_option fst (PKill w name sig) =
                map_option Some (Errorf ''unable to fetch pids for process name : %q'' [name])) \<and>
           map_option snd (PKill w name sig) =
             map_option (\<lambda>r. EvCompile name # snd (getPids w re') @
                              map (\<lambda>pid. EvKill pid sig) killed)
               (PKill w name sig) \<and>
           (killed \<noteq> [] \<and> (\<forall>pid \<in> set killed. kill w pid sig = None) \<longrightarrow>
              PKill w name sig =
                Some (None, EvCompile name # snd (getPids w re') @
                            map (\<lambda>pid. EvKill pid sig) killed)) \<and>
           (Quote name \<noteq> None \<and> (\<forall>pid m. kill w pid sig = Some m \<longrightarrow> CHR ''%'' \<notin> set m) \<longrightarrow>
              PKill w name sig \<noteq> None)"
proof -
  let ?re = "Concat (Capture (Alternate BeginText (Literal CHR ''/'')))
               (mk_concat (map Literal name @ [EndText]))"
  let ?re' = "mk_concat (map Literal name)"
  have a: "Compile (''(^|/)'' @ name @ ''$'') = Some (Inr ?re)"
    by (rule Compile_anchored [OF assms(2)])
  have b: "Compile name = Some (Inr ?re')"
    by (rule Compile_plain [OF assms(2)])
  have m: "\<forall>tok. MatchString ?re tok \<longleftrightarrow> tok = name \<or> suffix (CHR ''/'' # name) tok"
    using MatchString_anchored [of name] by blast
  have m': "\<forall>tok. MatchString ?re' tok \<longleftrightarrow> sublist name tok"
    using MatchString_literals [OF assms(1)] by blast
  have c: "\<forall>w'. map_option fst (PidOf w' name) = Some (fst (getPids w' ?re), None)"
    using PidOf_compiled [OF assms(1) a] by simp
  have g: "fst (getPids w ?re) = Some found"
    using getPids_complete [OF assms(3-5), of ?re] m assms(6,7) by simp
  have g': "fst (getPids w ?re') = Some killed"
    using getPids_complete [OF assms(3-5), of ?re'] m' assms(6,8) by simp
  have d: "map_option fst (PidOf w name) = Some (Some found, None)"
    using c [THEN spec, of w] by (simp only: g)
  have k0: "killed = [] \<longrightarrow>
              map_option fst (PKill w name sig) =
                map_option Some (Errorf ''unable to fetch pids for process name : %q'' [name])"
  proof
    assume "killed = []"
    with g' have "len (fst (getPids w ?re')) = 0" by (simp add: len_def)
    from PKill_no_pids [OF assms(1) b this] show
      "map_option fst (PKill w name sig) =
         map_option Some (Errorf ''unable to fetch pids for process name : %q'' [name])"
      by (simp add: option.map_comp comp_def)
  qed
  have ev: "map_option snd (PKill w name sig) =
             map_option (\<lambda>r. EvCompile name # snd (getPids w ?re') @
                              map (\<lambda>pid. EvKill pid sig) killed)
               (PKill w name sig)"
    by (rule PKill_events [OF assms(1) b g'])
  have dl: "killed \<noteq> [] \<and> (\<forall>pid \<in> set killed. kill w pid sig = None) \<longrightarrow>
              PKill w name sig =
                Some (None, EvCompile name # snd (getPids w ?re') @
                            map (\<lambda>pid. EvKill pid sig) killed)"
    using PKill_delivered [OF assms(1) b g'] by blast
  have df: "Quote name \<noteq> None \<and> (\<forall>pid m. kill w pid sig = Some m \<longrightarrow> CHR ''%'' \<notin> set m) \<longrightarrow>
              PKill w name sig \<noteq> None"
    using PKill_defined [OF assms(1) b g'] by blast
  show ?thesis
    by (intro exI [of _ ?re] exI [of _ ?re'] conjI a b m m' c d g' k0 ev dl df)
qed

theorem pattern_anchoring_witness:
  "List.map_filter (first_token example_procfs) (concat (map fst (readdirs example_procfs))) =
     [(1, ''/usr/sbin/nginx''), (3, ''nginx-helper'')] \<and>
   map_option fst (PidOf example_procfs ''nginx'') = Some (Some [1], None) \<and>
   map_option fst (PidOf example_procfs ''ngin'') = Some (Some [], None) \<and>
   fst (getPids example_procfs (mk_concat (map Literal ''ngin''))) = Some [1, 3] \<and>
   PKill example_procfs ''ngin'' 1 =
     Some (None,
           [EvCompile ''ngin'', EvOpen ''/proc'', EvReaddir, EvReadFile ''/proc/1/cmdline'',
            EvReadFile ''/proc/2/cmdline'', EvReaddir, EvReadFile ''/proc/3/cmdline'',
            EvReaddir, EvClose, EvKill 1 1, EvKill 3 1]) \<and>
   MatchString (Concat (Capture (Alternate BeginText (Literal CHR ''/'')))
                  (mk_concat (map Literal ''nginx'' @ [EndText]))) ''/usr/sbin/nginx'' \<and>
   MatchString (Concat (Capture (Alternate BeginText (Literal CHR ''/'')))
                  (mk_concat (map Literal ''nginx'' @ [EndText]))) ''nginx'' \<and>
   \<not> MatchString (Concat (Capture (Alternate BeginText (Literal CHR ''/'')))
                  (mk_concat (map Literal ''nginx'' @ [EndText]))) ''nginx-helper'' \<and>
   MatchString (mk_concat (map Literal ''ngin'')) ''nginx-helper''"
proof -
  let ?R = "Concat (Capture (Alternate BeginText (Literal CHR ''/'')))
                  (mk_concat (map Literal ''nginx'' @ [EndText]))"
  let ?R' = "mk_concat (map Literal ''ngin'')"
  let ?procs = "[(1 :: int, ''/usr/sbin/nginx''), (3, ''nginx-helper'')]"
  have n: "''nginx'' \<noteq> []" and n': "''ngin'' \<noteq> []" by simp_all
  have p: "plain ''nginx''" and p': "plain ''ngin''" by code_simp+
  have o: "open_proc example_procfs = None"
    by (simp add: example_procfs_def)
  have bq: "\<forall>b \<in> set (readdirs example_procfs). snd b = None"
    by (simp add: example_procfs_def)
  have r: "readdirs example_procfs = readdirs example_procfs \<or>
           (\<exists>ls rest. readdirs example_procfs = readdirs example_procfs @ (ls, Some EOF) # rest)"
    by simp
  have pr: "?procs =
              List.map_filter (first_token example_procfs) (concat (map fst (readdirs example_procfs)))"
    by code_simp
  have fo: "[1 :: int] =
              map fst (filter (\<lambda>p. snd p = ''nginx'' \<or> suffix (CHR ''/'' # ''nginx'') (snd p)) ?procs)"
    by code_simp
  have ki: "[1 :: int, 3] = map fst (filter (\<lambda>p. sublist ''nginx'' (snd p)) ?procs)"
    by code_simp
  have fo': "([] :: int list) =
              map fst (filter (\<lambda>p. snd p = ''ngin'' \<or> suffix (CHR ''/'' # ''ngin'') (snd p)) ?procs)"
    by code_simp
  have ki': "[1 :: int, 3] = map fst (filter (\<lambda>p. sublist ''ngin'' (snd p)) ?procs)"
    by code_simp
  have c: "Compile (''(^|/)'' @ ''nginx'' @ ''$'') = Some (Inr ?R)"
    by code_simp
  have c': "Compile ''ngin'' = Some (Inr ?R')"
    by code_simp
  have s1: "suffix (CHR ''/'' # ''nginx'') ''/usr/sbin/nginx''"
    by code_simp
  have s2: "''nginx-helper'' \<noteq> ''nginx'' \<and> \<not> suffix (CHR ''/'' # ''nginx'') ''nginx-helper''"
    by code_simp
  have s3: "sublist ''ngin'' ''nginx-helper''"
    by code_simp
  have dl: "[1 :: int, 3] \<noteq> [] \<and> (\<forall>pid \<in> set [1 :: int, 3]. kill example_procfs pid 1 = None)"
    by (simp add: example_procfs_def example_kill_def)
  have ev: "EvCompile ''ngin'' # snd (getPids example_procfs ?R') @ map (\<lambda>pid. EvKill pid 1) [1, 3] =
          [EvCompile ''ngin'', EvOpen ''/proc'', EvReaddir, EvReadFile ''/proc/1/cmdline'',
            EvReadFile ''/proc/2/cmdline'', EvReaddir, EvReadFile ''/proc/3/cmdline'',
            EvReaddir, EvClose, EvKill 1 1, EvKill 3 1]"
    by code_simp
  from pattern_anchoring [OF n p o bq r pr fo ki, where sig = 1] obtain re where
    r1: "Compile (''(^|/)'' @ ''nginx'' @ ''$'') = Some (Inr re)" and
    r2: "\<forall>tok. MatchString re tok \<longleftrightarrow> tok = ''nginx'' \<or> suffix (CHR ''/'' # ''nginx'') tok" and
    r3: "map_option fst (PidOf example_procfs ''nginx'') = Some (Some [1], None)"
    by (elim exE conjE)
  from r1 [unfolded c] have "?R = re"
    by (simp only: option.inject sum.inject)
  with r2
  have a: "\<forall>tok. MatchString ?R tok \<longleftrightarrow> tok = ''nginx'' \<or> suffix (CHR ''/'' # ''nginx'') tok"
    by (simp only: simp_thms)
  from pattern_anchoring [OF n' p' o bq r pr fo' ki', where sig = 1] obtain re' where
    q1: "Compile ''ngin'' = Some (Inr re')" and
    q2: "\<forall>tok. MatchString re' tok \<longleftrightarrow> sublist ''ngin'' tok" and
    q3: "map_option fst (PidOf example_procfs ''ngin'') = Some (Some [], None)" and
    q4: "fst (getPids example_procfs re') = Some [1, 3]" and
    q5: "[1 :: int, 3] \<noteq> [] \<and> (\<forall>pid \<in> set [1, 3]. kill example_procfs pid 1 = None) \<longrightarrow>
              PKill example_procfs ''ngin'' 1 =
                Some (None, EvCompile ''ngin'' # snd (getPids example_procfs re') @
                            map (\<lambda>pid. EvKill pid 1) [1, 3])"
    by (elim exE conjE)
  from q1 [unfolded c'] have e': "?R' = re'"
    by (simp only: option.inject sum.inject)
  from q2 e'
  have b: "\<forall>tok. MatchString ?R' tok \<longleftrightarrow> sublist ''ngin'' tok"
    by (simp only: simp_thms)
  from q4 e' have g: "fst (getPids example_procfs ?R') = Some [1, 3]"
    by (simp only: simp_thms)
  from q5 [rule_format, OF dl] e'
  have "PKill example_procfs ''ngin'' 1 =
          Some (None, EvCompile ''ngin'' # snd (getPids example_procfs ?R') @
                            map (\<lambda>pid. EvKill pid 1) [1, 3])"
    by (simp only: simp_thms)
  then have k: "PKill example_procfs ''ngin'' 1 =
     Some (None,
           [EvCompile ''ngin'', EvOpen ''/proc'', EvReaddir, EvReadFile ''/proc/1/cmdline'',
            EvReadFile ''/proc/2/cmdline'', EvReaddir, EvReadFile ''/proc/3/cmdline'',
            EvReaddir, EvClose, EvKill 1 1, EvKill 3 1])"
    by (simp only: ev)
  have m1: "MatchString ?R ''/usr/sbin/nginx''"
    using a [THEN spec, of "''/usr/sbin/nginx''"] s1 by (simp only: simp_thms)
  have m2: "MatchString ?R ''nginx''"
    using a [THEN spec, of "''nginx''"] by (simp only: simp_thms)
  have m3: "\<not> MatchString ?R ''nginx-helper''"
    using a [THEN spec, of "''nginx-helper''"] s2 by (simp only: simp_thms)
  have m4: "MatchString ?R' ''nginx-helper''"
    using b [THEN spec, of "''nginx-helper''"] s3 by (simp only: simp_thms)
  show ?thesis
    by (intro conjI pr [symmetric] r3 q3 g k m1 m2 m3 m4)
qed

text \<open>
  The name \<^verbatim>\<open>a|b\<close> is not plain: its anchored pattern is an alternation, and
  \<open>PidOf\<close> returns the pids of processes whose first token is \<^verbatim>\<open>a|bc\<close>, a token
  that is not the name, does not end with a slash and the name, and has the name as a
  proper prefix.
\<close>

theorem pattern_anchoring_counterexample:
  "map_option fst (PidOf example_renamed ''a|b'') = Some (Some [1, 2, 3], None) \<and>
   fst (scan_entry example_renamed
          (Alternate (Concat (Capture (Alternate BeginText (Literal CHR ''/''))) (Literal CHR ''a''))
             (Concat (Literal CHR ''b'') EndText))
          \<lparr>Name = ''1'', IsDir = True\<rparr>) = Some 1 \<and>
   first_token example_renamed \<lparr>Name = ''1'', IsDir = True\<rparr> = Some (1, ''a|bc'') \<and>
   FieldsFunc (hd (SplitN (''a|bc'' @ [CHR 0x00]) [CHR 0x00] 2)) = [''a|bc''] \<and>
   ''a|bc'' \<noteq> ''a|b'' \<and>
   \<not> suffix (CHR ''/'' # ''a|b'') ''a|bc'' \<and>
   sublist ''a|b'' ''a|bc''"
  by code_simp

end
